theory Spec2Isabelle
  imports Complex_Main "HOL-Library.Multiset"
begin

section \<open>Errors, nested structures and array indexing\<close>

text \<open>
  The exceptions that the modelled code (or the libraries it calls on the modelled paths)
  can raise.  A failing call is a value \<open>Inl e\<close>.  \<open>ValueError\<close> is kept for the
  \<open>raise ValueError\<close> statements of the source and for Python's own ones (\<open>min\<close> of
  an empty sequence, unpacking an empty \<open>zip\<close>); the errors of the nested-structure
  library are \<open>StructureError\<close>.
\<close>

datatype error = ValueError | IndexError | TypeError | AttributeError | StructureError

text \<open>
  Nested structures of \<open>tensorflow.python.util.nest\<close>: a leaf, or a tuple / list
  of nested structures.  \<open>flatten\<close> lists the leaves left to right,
  \<open>pack_sequence_as\<close> refills a template and fails when the number of supplied leaves
  differs from the number of leaves of the template, \<open>assert_same_structure\<close> compares the
  nesting (container kinds included) and ignores the leaves.
\<close>

datatype kind = TupleK | ListK

datatype 'a nest = Leaf 'a | Seq kind "'a nest list"

fun flatten :: "'a nest \<Rightarrow> 'a list" where
  "flatten (Leaf a) = [a]"
| "flatten (Seq k ss) = concat (map flatten ss)"

fun pack :: "'b nest \<Rightarrow> 'a list \<Rightarrow> 'a nest"
  and pack_list :: "'b nest list \<Rightarrow> 'a list \<Rightarrow> 'a nest list" where
  "pack (Leaf b) xs = Leaf (hd xs)"
| "pack (Seq k ss) xs = Seq k (pack_list ss xs)"
| "pack_list [] xs = []"
| "pack_list (s # ss) xs =
     pack s (take (length (flatten s)) xs) # pack_list ss (drop (length (flatten s)) xs)"

definition pack_sequence_as :: "'b nest \<Rightarrow> 'a list \<Rightarrow> error + 'a nest" where
  "pack_sequence_as structure flat_sequence =
     (if length flat_sequence \<noteq> length (flatten structure) then Inl StructureError
      else Inr (pack structure flat_sequence))"

fun same_structure :: "'a nest \<Rightarrow> 'b nest \<Rightarrow> bool"
  and same_structures :: "'a nest list \<Rightarrow> 'b nest list \<Rightarrow> bool" where
  "same_structure (Leaf a) (Leaf b) = True"
| "same_structure (Seq k ss) (Seq k' ts) = (k = k' \<and> same_structures ss ts)"
| "same_structure (Leaf a) (Seq k' ts) = False"
| "same_structure (Seq k ss) (Leaf b) = False"
| "same_structures [] [] = True"
| "same_structures (s # ss) (t # ts) = (same_structure s t \<and> same_structures ss ts)"
| "same_structures [] (t # ts) = False"
| "same_structures (s # ss) [] = False"

definition assert_same_structure :: "'a nest \<Rightarrow> 'b nest \<Rightarrow> error + unit" where
  "assert_same_structure a b = (if same_structure a b then Inr () else Inl StructureError)"

text \<open>
  An array is the list of its rows along the first (batch) axis.  Python's slice
  \<open>xs[a:b]\<close> clamps both bounds into \<open>[0, len(xs)]\<close> after adding \<open>len(xs)\<close> to a
  negative one.
\<close>

definition slice_bound :: "nat \<Rightarrow> int \<Rightarrow> nat" where
  "slice_bound n i = (if i < 0 then nat (max (i + int n) 0) else min (nat i) n)"

definition py_slice :: "'a list \<Rightarrow> int \<Rightarrow> int \<Rightarrow> 'a list" where
  "py_slice xs a b =
     (let lo = slice_bound (length xs) a; hi = slice_bound (length xs) b
      in take (hi - lo) (drop lo xs))"

definition slice_from :: "'a list \<Rightarrow> int \<Rightarrow> 'a list" where
  "slice_from xs a = drop (slice_bound (length xs) a) xs"

definition slice_to :: "'a list \<Rightarrow> int \<Rightarrow> 'a list" where
  "slice_to xs b = take (slice_bound (length xs) b) xs"

text \<open>
  \<open>x[indicies]\<close> with an index array of non-negative integers: the selected rows, or
  \<open>IndexError\<close> when an index is out of bounds.
\<close>

definition gather :: "'a list \<Rightarrow> nat list \<Rightarrow> error + 'a list" where
  "gather x idx =
     (if list_all (\<lambda>i. i < length x) idx then Inr (map (\<lambda>i. x ! i) idx) else Inl IndexError)"

fun gather_all :: "'a list list \<Rightarrow> nat list \<Rightarrow> error + 'a list list" where
  "gather_all [] idx = Inr []"
| "gather_all (x # xs) idx =
     (case gather x idx of
        Inl e \<Rightarrow> Inl e
      | Inr r \<Rightarrow> (case gather_all xs idx of Inl e \<Rightarrow> Inl e | Inr rs \<Rightarrow> Inr (r # rs)))"

text \<open>
  The process-wide pseudo-random generator of the array library: \<open>rseed\<close> is
  \<open>np.random.seed\<close> (the state after seeding), \<open>rperm\<close> is
  \<open>np.random.permutation\<close> (the drawn permutation and the state after the draw).
\<close>

record 'g np_random =
  rseed :: "int \<Rightarrow> 'g"
  rperm :: "'g \<Rightarrow> nat \<Rightarrow> nat list \<times> 'g"

definition valid_rng :: "'g np_random \<Rightarrow> bool" where
  "valid_rng R = (\<forall>g n. mset (fst (rperm R g n)) = mset [0..<n])"

section \<open>The batch generator\<close>

text \<open>
  \<open>batchify(data, batchsize, n_epochs, shuffle, cutoff)\<close> is a generator.  Its state
  between two resumptions is: not yet started (the body, the first permutation included,
  runs at the first resumption), suspended at a \<open>yield\<close> inside the loop with the local
  variables \<open>perm\<close>, \<open>pos\<close> and \<open>epoch\<close>, or finished.  After the tail batch of the
  last epoch has been yielded the only continuation is \<open>return\<close>, so that suspension
  point is the finished state.
\<close>

record 'a batchify_args =
  data :: "'a list nest"
  batchsize :: int
  n_epochs :: int
  shuffle :: bool
  cutoff :: bool

datatype gen_state = Fresh | Running "nat list" int int | Finished

datatype 'b resumed = Yield 'b | StopIteration | Raise error

definition get_data :: "'a batchify_args \<Rightarrow> nat list \<Rightarrow> error + 'a list nest" where
  "get_data A indicies =
     (case gather_all (flatten (data A)) indicies of
        Inl e \<Rightarrow> Inl e
      | Inr batch \<Rightarrow> pack_sequence_as (data A) batch)"

definition get_perm :: "'g np_random \<Rightarrow> 'a batchify_args \<Rightarrow> nat \<Rightarrow> 'g \<Rightarrow> nat list \<times> 'g" where
  "get_perm R A N g = (if shuffle A then rperm R g N else ([0..<N], g))"

definition emit ::
  "'a batchify_args \<Rightarrow> nat list \<Rightarrow> gen_state \<Rightarrow> 'g \<Rightarrow> 'a list nest resumed \<times> gen_state \<times> 'g" where
  "emit A indicies st g =
     (case get_data A indicies of
        Inl e \<Rightarrow> (Raise e, Finished, g)
      | Inr b \<Rightarrow> (Yield b, st, g))"

definition loop_body ::
  "'g np_random \<Rightarrow> 'a batchify_args \<Rightarrow> nat \<Rightarrow> nat list \<Rightarrow> int \<Rightarrow> int \<Rightarrow> 'g
     \<Rightarrow> 'a list nest resumed \<times> gen_state \<times> 'g" where
  "loop_body R A N perm pos epoch g =
     (if n_epochs A \<le> 0 \<or> epoch < n_epochs A - 1 \<or> pos < int N then
        if pos + batchsize A > int N then
          if epoch = n_epochs A - 1 then
            if \<not> cutoff A then emit A (slice_from perm pos) Finished g
            else (StopIteration, Finished, g)
          else
            let missing = pos + batchsize A - int N;
                pos1 = slice_from perm pos;
                (perm', g') = get_perm R A N g;
                pos2 = slice_to perm' missing
            in emit A (pos1 @ pos2) (Running perm' missing (epoch + 1)) g'
        else emit A (py_slice perm pos (pos + batchsize A))
               (Running perm (pos + batchsize A) epoch) g
      else (StopIteration, Finished, g))"

fun gen_next ::
  "'g np_random \<Rightarrow> 'a batchify_args \<Rightarrow> gen_state \<Rightarrow> 'g
     \<Rightarrow> 'a list nest resumed \<times> gen_state \<times> 'g" where
  "gen_next R A Fresh g =
     (case flatten (data A) of
        [] \<Rightarrow> (Raise IndexError, Finished, g)
      | x # xs \<Rightarrow>
          (let N = length x; (perm, g') = get_perm R A N g
           in loop_body R A N perm 0 0 g'))"
| "gen_next R A (Running perm pos epoch) g =
     (case flatten (data A) of
        [] \<Rightarrow> (Raise IndexError, Finished, g)
      | x # xs \<Rightarrow> loop_body R A (length x) perm pos epoch g)"
| "gen_next R A Finished g = (StopIteration, Finished, g)"

text \<open>
  Exhausting the generator (\<open>list(batchify(...))\<close>) with a bound on the number of
  resumptions: \<open>None\<close> when the generator has not finished within the bound.
\<close>

fun gen_list ::
  "'g np_random \<Rightarrow> 'a batchify_args \<Rightarrow> nat \<Rightarrow> gen_state \<Rightarrow> 'g
     \<Rightarrow> (error + 'a list nest list) option" where
  "gen_list R A 0 st g = None"
| "gen_list R A (Suc fuel) st g =
     (case gen_next R A st g of
        (StopIteration, st', g') \<Rightarrow> Some (Inr [])
      | (Raise e, st', g') \<Rightarrow> Some (Inl e)
      | (Yield b, st', g') \<Rightarrow>
          (case gen_list R A fuel st' g' of
             None \<Rightarrow> None
           | Some (Inl e) \<Rightarrow> Some (Inl e)
           | Some (Inr bs) \<Rightarrow> Some (Inr (b # bs))))"

text \<open>
  Reference functions used to state what the generator produces: \<open>chunk B c xs\<close> cuts
  \<open>xs\<close> into consecutive pieces of \<open>B\<close> elements, the short last piece kept
  (\<open>c = False\<close>) or dropped (\<open>c = True\<close>); \<open>batch_of A idx\<close> is the batch that
  selects the rows \<open>idx\<close> from every leaf of the data.
\<close>

fun chunk :: "nat \<Rightarrow> bool \<Rightarrow> 'a list \<Rightarrow> 'a list list" where
  "chunk B c xs =
     (if xs = [] \<or> B = 0 then []
      else if length xs < B then (if c then [] else [xs])
      else take B xs # chunk B c (drop B xs))"

declare chunk.simps [simp del]

definition batch_of :: "'a batchify_args \<Rightarrow> nat list \<Rightarrow> 'a list nest" where
  "batch_of A idx = pack (data A) (map (\<lambda>x. map (\<lambda>i. x ! i) idx) (flatten (data A)))"

text \<open>
  A sample generator meeting the contract of the array library, for concrete runs: the
  state is a counter, a draw rotates the identity permutation by the counter and
  increments it, seeding sets the counter to the absolute value of the seed.
\<close>

definition demo_rng :: "nat np_random" where
  "demo_rng = \<lparr>rseed = (\<lambda>s. nat \<bar>s\<bar>), rperm = (\<lambda>g n. (rotate g [0..<n], Suc g))\<rparr>"

section \<open>The Dataset class\<close>

text \<open>
  The numerical side of the array library is a parameter: the number of dimensions of an
  array, the mean and the sample standard deviation along a tuple of axes
  (\<open>keepdims=True\<close>, \<open>ddof=1\<close>), the two over the whole array, and the broadcasting
  subtraction and division of \<open>(d - mu) / sigma\<close>.
\<close>

record ('r, 'm, 's) np_array =
  ndim :: "'r list \<Rightarrow> nat"
  np_mean :: "'r list \<Rightarrow> nat list \<Rightarrow> 'm"
  np_std :: "'r list \<Rightarrow> nat list \<Rightarrow> 'm"
  np_mean_all :: "'r list \<Rightarrow> 's"
  np_std_all :: "'r list \<Rightarrow> 's"
  np_sub :: "'r list \<Rightarrow> 'm \<Rightarrow> 'r list"
  np_div :: "'r list \<Rightarrow> 'm \<Rightarrow> 'r list"

text \<open>
  The attributes of a \<open>Dataset\<close> object.  The attributes written \<open>_name\<close> in the
  source (flat lists of leaves) are the fields \<open>name_flat\<close>; \<open>train_idx\<close> and
  \<open>validation_idx\<close> exist only after an automatic split.  The shape descriptors
  (\<open>_inputs_shape\<close>, \<open>_targets_shape\<close>, computed by a helper of another module) and the
  free-form \<open>info\<close> are not part of the model.
\<close>

record ('r, 'm, 's) dataset =
  inputs_label_flat :: "string list"
  targets_label_flat :: "string list"
  inputs_structure :: "nat nest"
  targets_structure :: "nat nest"
  train_idx :: "nat list option"
  validation_idx :: "nat list option"
  train_inputs_flat :: "'r list list"
  train_targets_flat :: "'r list list"
  validation_inputs_flat :: "'r list list option"
  validation_targets_flat :: "'r list list option"
  test_inputs_flat :: "'r list list option"
  test_targets_flat :: "'r list list option"
  inputs_mean_flat :: "'m list"
  inputs_std_flat :: "'m list"
  inputs_stationary_mean_flat :: "'s list"
  inputs_stationary_std_flat :: "'s list"
  minibatch_idx :: int
  train_perm :: "nat list"
  minibatch_indicies :: "nat list option"
  normalizer :: "'r list nest \<Rightarrow> error + 'r list nest"

text \<open>
  \<open>if seed: np.random.seed(seed)\<close> on an optional integer: the generator is reseeded
  when the seed is given and is not zero.
\<close>

definition reseed :: "'g np_random \<Rightarrow> int option \<Rightarrow> 'g \<Rightarrow> 'g" where
  "reseed R seed g = (case seed of None \<Rightarrow> g | Some s \<Rightarrow> if s \<noteq> 0 then rseed R s else g)"

text \<open>Python 3's \<open>round\<close> to an integer: to the nearest, a tie to the even neighbour.\<close>

definition py_round :: "rat \<Rightarrow> int" where
  "py_round x =
     (let f = \<lfloor>x\<rfloor>; r = x - of_int f
      in if r < 1 / 2 then f else if 1 / 2 < r then f + 1 else if even f then f else f + 1)"

text \<open>The default labels \<open>'inputs{}'.format(i)\<close>.\<close>

function string_of_nat :: "nat \<Rightarrow> string" where
  "string_of_nat n =
     (if n < 10 then [char_of (48 + n)]
      else string_of_nat (n div 10) @ [char_of (48 + n mod 10)])"
  by pat_completeness auto
termination
  by (relation "measure id") auto

declare string_of_nat.simps [simp del]

definition default_labels :: "string \<Rightarrow> nat \<Rightarrow> string list" where
  "default_labels prefix n = map (\<lambda>i. prefix @ string_of_nat i) [0..<n]"

definition init_labels :: "string \<Rightarrow> string nest option \<Rightarrow> 'a nest \<Rightarrow> error + string list" where
  "init_labels prefix label structure =
     (case label of
        None \<Rightarrow> Inr (default_labels prefix (length (flatten structure)))
      | Some l \<Rightarrow>
          (case assert_same_structure l structure of
             Inl e \<Rightarrow> Inl e
           | Inr u \<Rightarrow> Inr (flatten l)))"

definition has_same_batch :: "'a list list \<Rightarrow> error + bool" where
  "has_same_batch xs =
     (case xs of
        [] \<Rightarrow> Inl IndexError
      | x # rest \<Rightarrow> Inr (list_all (\<lambda>l. length l = length x) rest))"

text \<open>
  The check of an optional test or validation set.  When the inputs are not given nothing
  is checked and the targets are stored as passed (the model keeps their leaves).  When
  the inputs are given without targets, \<open>None\<close> stands where a structure of arrays is
  expected: it passes the structure check only against a single leaf, and then
  \<open>len(None)\<close> raises unless the length comparison has already found a mismatch.
\<close>

definition check_set ::
  "nat nest \<Rightarrow> nat nest \<Rightarrow> 'r list nest option \<Rightarrow> 'r list nest option
     \<Rightarrow> error + ('r list list option \<times> 'r list list option)" where
  "check_set istruct tstruct xs ts =
     (case xs of
        None \<Rightarrow> Inr (None, map_option flatten ts)
      | Some x \<Rightarrow>
          (case assert_same_structure x istruct of
             Inl e \<Rightarrow> Inl e
           | Inr u \<Rightarrow>
               (case ts of
                  None \<Rightarrow>
                    (case tstruct of
                       Seq k ss \<Rightarrow> Inl StructureError
                     | Leaf a \<Rightarrow>
                         (case has_same_batch (flatten x) of
                            Inl e \<Rightarrow> Inl e
                          | Inr ok \<Rightarrow> if ok then Inl TypeError else Inl ValueError))
                | Some t \<Rightarrow>
                    (case assert_same_structure t tstruct of
                       Inl e \<Rightarrow> Inl e
                     | Inr u \<Rightarrow>
                         (case has_same_batch (flatten x @ flatten t) of
                            Inl e \<Rightarrow> Inl e
                          | Inr ok \<Rightarrow>
                              if \<not> ok then Inl ValueError
                              else Inr (Some (flatten x), Some (flatten t)))))))"

definition n_train_samples :: "('r, 'm, 's) dataset \<Rightarrow> error + nat" where
  "n_train_samples d =
     (case train_inputs_flat d of [] \<Rightarrow> Inl IndexError | x # xs \<Rightarrow> Inr (length x))"

definition n_test_samples :: "('r, 'm, 's) dataset \<Rightarrow> error + nat" where
  "n_test_samples d =
     (case test_inputs_flat d of
        None \<Rightarrow> Inr 0
      | Some [] \<Rightarrow> Inl IndexError
      | Some (x # xs) \<Rightarrow> Inr (length x))"

definition n_validation_samples :: "('r, 'm, 's) dataset \<Rightarrow> error + nat" where
  "n_validation_samples d =
     (case validation_inputs_flat d of
        None \<Rightarrow> Inr 0
      | Some [] \<Rightarrow> Inl IndexError
      | Some (x # xs) \<Rightarrow> Inr (length x))"

definition get_stats :: "('r, 'm, 's) np_array \<Rightarrow> 'r list \<Rightarrow> nat list option \<Rightarrow> 'm \<times> 'm \<times> 's \<times> 's" where
  "get_stats L inputs axis =
     (let axis' = (case axis of None \<Rightarrow> [0..<max (ndim L inputs - 1) 1] | Some a \<Rightarrow> a)
      in (np_mean L inputs axis', np_std L inputs axis', np_mean_all L inputs, np_std_all L inputs))"

definition update_stats ::
  "('r, 'm, 's) np_array \<Rightarrow> nat list option \<Rightarrow> ('r, 'm, 's) dataset \<Rightarrow> error + ('r, 'm, 's) dataset" where
  "update_stats L axis d =
     (let stats = map (\<lambda>x. get_stats L x axis) (train_inputs_flat d)
      in if stats = [] then Inl ValueError
         else Inr (d\<lparr>inputs_mean_flat := map (\<lambda>(m, s, sm, ss). m) stats,
                    inputs_std_flat := map (\<lambda>(m, s, sm, ss). s) stats,
                    inputs_stationary_mean_flat := map (\<lambda>(m, s, sm, ss). sm) stats,
                    inputs_stationary_std_flat := map (\<lambda>(m, s, sm, ss). ss) stats\<rparr>))"

definition next_epoch ::
  "'g np_random \<Rightarrow> int option \<Rightarrow> ('r, 'm, 's) dataset \<Rightarrow> 'g \<Rightarrow> error + (('r, 'm, 's) dataset \<times> 'g)" where
  "next_epoch R seed d g =
     (let d1 = d\<lparr>minibatch_idx := 0\<rparr>; g1 = reseed R seed g
      in case n_train_samples d1 of
           Inl e \<Rightarrow> Inl e
         | Inr n \<Rightarrow> (let (p, g2) = rperm R g1 n in Inr (d1\<lparr>train_perm := p\<rparr>, g2)))"

text \<open>The properties that re-attach the flat lists to the nesting.\<close>

definition train_inputs :: "('r, 'm, 's) dataset \<Rightarrow> error + 'r list nest" where
  "train_inputs d = pack_sequence_as (inputs_structure d) (train_inputs_flat d)"

definition train_targets :: "('r, 'm, 's) dataset \<Rightarrow> error + 'r list nest" where
  "train_targets d = pack_sequence_as (targets_structure d) (train_targets_flat d)"

definition pack_optional :: "nat nest \<Rightarrow> 'a list option \<Rightarrow> error + 'a nest option" where
  "pack_optional structure v =
     (case v of
        None \<Rightarrow> Inr None
      | Some xs \<Rightarrow>
          (case pack_sequence_as structure xs of Inl e \<Rightarrow> Inl e | Inr p \<Rightarrow> Inr (Some p)))"

definition test_inputs :: "('r, 'm, 's) dataset \<Rightarrow> error + 'r list nest option" where
  "test_inputs d = pack_optional (inputs_structure d) (test_inputs_flat d)"

definition test_targets :: "('r, 'm, 's) dataset \<Rightarrow> error + 'r list nest option" where
  "test_targets d = pack_optional (targets_structure d) (test_targets_flat d)"

definition validation_inputs :: "('r, 'm, 's) dataset \<Rightarrow> error + 'r list nest option" where
  "validation_inputs d = pack_optional (inputs_structure d) (validation_inputs_flat d)"

definition validation_targets :: "('r, 'm, 's) dataset \<Rightarrow> error + 'r list nest option" where
  "validation_targets d = pack_optional (targets_structure d) (validation_targets_flat d)"

definition inputs_label :: "('r, 'm, 's) dataset \<Rightarrow> error + string nest" where
  "inputs_label d = pack_sequence_as (inputs_structure d) (inputs_label_flat d)"

definition targets_label :: "('r, 'm, 's) dataset \<Rightarrow> error + string nest" where
  "targets_label d = pack_sequence_as (targets_structure d) (targets_label_flat d)"

text \<open>
  \<open>Dataset.__init__\<close>.  The steps follow the source: labels, the batch-size check of
  inputs and targets, the structures, the optional test and validation sets, the automatic
  split, the statistics, the cursor and the first epoch, the identity normalizer.
  \<open>train_frac\<close> is the exact value of the float, and the product
  \<open>n_inputs * train_frac\<close> is taken exactly.
\<close>

definition split_sets ::
  "'g np_random \<Rightarrow> 'r list list \<Rightarrow> 'r list list \<Rightarrow> nat \<Rightarrow> int option \<Rightarrow> rat \<Rightarrow> 'g
     \<Rightarrow> error + ((nat list \<times> nat list) \<times> ('r list list \<times> 'r list list)
                  \<times> ('r list list \<times> 'r list list) \<times> 'g)" where
  "split_sets R flat_inputs flat_targets n_inputs seed train_frac g =
     (let g1 = reseed R seed g;
          (perm, g2) = rperm R g1 n_inputs;
          split = py_round (of_nat n_inputs * train_frac);
          tr_idx = sort (slice_to perm split);
          va_idx = sort (slice_from perm split)
      in case gather_all flat_inputs va_idx of Inl e \<Rightarrow> Inl e | Inr vi \<Rightarrow>
         (case gather_all flat_targets va_idx of Inl e \<Rightarrow> Inl e | Inr vt \<Rightarrow>
         (case gather_all flat_inputs tr_idx of Inl e \<Rightarrow> Inl e | Inr ti \<Rightarrow>
         (case gather_all flat_targets tr_idx of Inl e \<Rightarrow> Inl e | Inr tt \<Rightarrow>
            Inr ((tr_idx, va_idx), (ti, tt), (vi, vt), g2)))))"

definition finish_init ::
  "'g np_random \<Rightarrow> ('r, 'm, 's) np_array \<Rightarrow> ('r, 'm, 's) dataset \<Rightarrow> 'g
     \<Rightarrow> error + (('r, 'm, 's) dataset \<times> 'g)" where
  "finish_init R L d g =
     (case update_stats L None d of Inl e \<Rightarrow> Inl e | Inr d1 \<Rightarrow>
      (case n_train_samples d1 of Inl e \<Rightarrow> Inl e | Inr n \<Rightarrow>
       (case next_epoch R None
               (d1\<lparr>minibatch_idx := 0, train_perm := [0..<n], minibatch_indicies := None\<rparr>) g of
          Inl e \<Rightarrow> Inl e
        | Inr (d2, g') \<Rightarrow> Inr (d2\<lparr>normalizer := (\<lambda>data. Inr data)\<rparr>, g'))))"

definition init_record ::
  "string list \<Rightarrow> string list \<Rightarrow> nat nest \<Rightarrow> nat nest \<Rightarrow> 'r list list \<Rightarrow> 'r list list
     \<Rightarrow> 'r list list option \<Rightarrow> 'r list list option
     \<Rightarrow> 'r list list option \<Rightarrow> 'r list list option \<Rightarrow> ('r, 'm, 's) dataset" where
  "init_record ilab tlab istruct tstruct tr_i tr_t va_i va_t te_i te_t =
     \<lparr>inputs_label_flat = ilab, targets_label_flat = tlab,
      inputs_structure = istruct, targets_structure = tstruct,
      train_idx = None, validation_idx = None,
      train_inputs_flat = tr_i, train_targets_flat = tr_t,
      validation_inputs_flat = va_i, validation_targets_flat = va_t,
      test_inputs_flat = te_i, test_targets_flat = te_t,
      inputs_mean_flat = [], inputs_std_flat = [],
      inputs_stationary_mean_flat = [], inputs_stationary_std_flat = [],
      minibatch_idx = 0, train_perm = [], minibatch_indicies = None,
      normalizer = (\<lambda>data. Inr data)\<rparr>"

definition Dataset_init ::
  "'g np_random \<Rightarrow> ('r, 'm, 's) np_array \<Rightarrow> 'r list nest \<Rightarrow> 'r list nest
     \<Rightarrow> 'r list nest option \<Rightarrow> 'r list nest option
     \<Rightarrow> 'r list nest option \<Rightarrow> 'r list nest option
     \<Rightarrow> int option \<Rightarrow> rat \<Rightarrow> string nest option \<Rightarrow> string nest option \<Rightarrow> 'g
     \<Rightarrow> error + (('r, 'm, 's) dataset \<times> 'g)" where
  "Dataset_init R L inputs targets test_in test_tg valid_in valid_tg seed train_frac
       in_label tg_label g =
     (let flat_inputs = flatten inputs; flat_targets = flatten targets
      in case init_labels ''inputs'' in_label inputs of Inl e \<Rightarrow> Inl e | Inr ilab \<Rightarrow>
         (case init_labels ''targets'' tg_label targets of Inl e \<Rightarrow> Inl e | Inr tlab \<Rightarrow>
         (case flat_inputs of [] \<Rightarrow> Inl IndexError | x0 # rest \<Rightarrow>
         (let n_inputs = length x0
          in case has_same_batch (flat_inputs @ flat_targets) of Inl e \<Rightarrow> Inl e | Inr ok \<Rightarrow>
             if \<not> ok then Inl ValueError
             else
               (case pack_sequence_as inputs [0..<length flat_inputs] of Inl e \<Rightarrow> Inl e | Inr istruct \<Rightarrow>
               (case pack_sequence_as targets [0..<length flat_targets] of Inl e \<Rightarrow> Inl e | Inr tstruct \<Rightarrow>
               (case check_set istruct tstruct test_in test_tg of Inl e \<Rightarrow> Inl e | Inr (te_i, te_t) \<Rightarrow>
               (case check_set istruct tstruct valid_in valid_tg of Inl e \<Rightarrow> Inl e | Inr (va_i, va_t) \<Rightarrow>
               (let d0 = init_record ilab tlab istruct tstruct flat_inputs flat_targets
                           va_i va_t te_i te_t
                in if valid_in = None \<and> train_frac > 0 then
                     (case split_sets R flat_inputs flat_targets n_inputs seed train_frac g of
                        Inl e \<Rightarrow> Inl e
                      | Inr ((tr_idx, va_idx), (ti, tt), (vi, vt), g1) \<Rightarrow>
                          finish_init R L
                            (d0\<lparr>train_idx := Some tr_idx, validation_idx := Some va_idx,
                                train_inputs_flat := ti, train_targets_flat := tt,
                                validation_inputs_flat := Some vi,
                                validation_targets_flat := Some vt\<rparr>) g1)
                   else finish_init R L d0 g)))))))))"

text \<open>
  \<open>copy()\<close>.  \<open>.copy()\<close> is called on the packed training structures: an array or a
  list has a \<open>copy\<close> method (the copy has the same contents), a tuple has none.  The new
  object is built with the default \<open>seed=None\<close>, \<open>train_frac=0.8\<close> and default labels.
\<close>

fun py_copy :: "'a nest \<Rightarrow> error + 'a nest" where
  "py_copy (Leaf a) = Inr (Leaf a)"
| "py_copy (Seq ListK ss) = Inr (Seq ListK ss)"
| "py_copy (Seq TupleK ss) = Inl AttributeError"

definition copy ::
  "'g np_random \<Rightarrow> ('r, 'm, 's) np_array \<Rightarrow> ('r, 'm, 's) dataset \<Rightarrow> 'g
     \<Rightarrow> error + (('r, 'm, 's) dataset \<times> 'g)" where
  "copy R L d g =
     (case train_inputs d of Inl e \<Rightarrow> Inl e | Inr ti \<Rightarrow>
     (case py_copy ti of Inl e \<Rightarrow> Inl e | Inr inputs \<Rightarrow>
     (case train_targets d of Inl e \<Rightarrow> Inl e | Inr tt \<Rightarrow>
     (case py_copy tt of Inl e \<Rightarrow> Inl e | Inr targets \<Rightarrow>
     (case validation_inputs d of Inl e \<Rightarrow> Inl e | Inr vi \<Rightarrow>
     (case validation_targets d of Inl e \<Rightarrow> Inl e | Inr vt \<Rightarrow>
     (case test_inputs d of Inl e \<Rightarrow> Inl e | Inr tei \<Rightarrow>
     (case test_targets d of Inl e \<Rightarrow> Inl e | Inr tet \<Rightarrow>
        Dataset_init R L inputs targets tei tet vi vt None (4 / 5) None None g))))))))"

text \<open>
  \<open>normalize(axis, control)\<close>.  \<open>normalize_inputs\<close> is the closure stored as the
  normalizer; \<open>zip\<close> stops at the shortest of the four sequences.  The flat attribute
  lists are Python lists of leaves when the closure is applied to them.
\<close>

definition normalize_leaf ::
  "('r, 'm, 's) np_array \<Rightarrow> 'r list \<times> 'm \<times> 'm \<times> bool \<Rightarrow> 'r list" where
  "normalize_leaf L = (\<lambda>(d, mu, sigma, c). if c then np_div L (np_sub L d mu) sigma else d)"

definition normalized_data ::
  "('r, 'm, 's) np_array \<Rightarrow> 'm list \<Rightarrow> 'm list \<Rightarrow> bool list \<Rightarrow> 'r list list
     \<Rightarrow> 'r list list" where
  "normalized_data L means stds control flat_data =
     map (normalize_leaf L) (zip flat_data (zip means (zip stds control)))"

definition normalize_inputs ::
  "('r, 'm, 's) np_array \<Rightarrow> 'm list \<Rightarrow> 'm list \<Rightarrow> bool list \<Rightarrow> 'r list nest
     \<Rightarrow> error + 'r list nest" where
  "normalize_inputs L means stds control data' =
     pack_sequence_as data' (normalized_data L means stds control (flatten data'))"

definition as_list :: "'a list \<Rightarrow> 'a nest" where
  "as_list xs = Seq ListK (map Leaf xs)"

definition normalize_flat ::
  "('r list nest \<Rightarrow> error + 'r list nest) \<Rightarrow> 'r list list \<Rightarrow> error + 'r list list" where
  "normalize_flat f xs = (case f (as_list xs) of Inl e \<Rightarrow> Inl e | Inr r \<Rightarrow> Inr (flatten r))"

definition normalize_optional ::
  "('r list nest \<Rightarrow> error + 'r list nest) \<Rightarrow> 'r list list option \<Rightarrow> error + 'r list list option" where
  "normalize_optional f v =
     (case v of
        None \<Rightarrow> Inr None
      | Some xs \<Rightarrow> (case normalize_flat f xs of Inl e \<Rightarrow> Inl e | Inr r \<Rightarrow> Inr (Some r)))"

definition control_list :: "bool nest option \<Rightarrow> nat \<Rightarrow> bool list" where
  "control_list control k = (case control of None \<Rightarrow> replicate k True | Some c \<Rightarrow> flatten c)"

definition normalize ::
  "('r, 'm, 's) np_array \<Rightarrow> nat list option \<Rightarrow> bool nest option \<Rightarrow> ('r, 'm, 's) dataset
     \<Rightarrow> error + ('r, 'm, 's) dataset" where
  "normalize L axis control d =
     (case update_stats L axis d of Inl e \<Rightarrow> Inl e | Inr d1 \<Rightarrow>
      (let control' = control_list control (length (train_inputs_flat d1));
           f = normalize_inputs L (inputs_mean_flat d1) (inputs_std_flat d1) control';
           d2 = d1\<lparr>normalizer := f\<rparr>
       in case normalize_flat f (train_inputs_flat d2) of Inl e \<Rightarrow> Inl e | Inr tr \<Rightarrow>
          (case normalize_optional f (test_inputs_flat d2) of Inl e \<Rightarrow> Inl e | Inr te \<Rightarrow>
          (case normalize_optional f (validation_inputs_flat d2) of Inl e \<Rightarrow> Inl e | Inr va \<Rightarrow>
             update_stats L axis
               (d2\<lparr>train_inputs_flat := tr, test_inputs_flat := te,
                   validation_inputs_flat := va\<rparr>)))))"

text \<open>\<open>minibatch(batch_size)\<close> and the state it leaves behind.\<close>

definition minibatch ::
  "'g np_random \<Rightarrow> ('r, 'm, 's) dataset \<Rightarrow> int \<Rightarrow> 'g
     \<Rightarrow> error + (('r list nest \<times> 'r list nest) \<times> ('r, 'm, 's) dataset \<times> 'g)" where
  "minibatch R d batch_size g =
     (case n_train_samples d of Inl e \<Rightarrow> Inl e | Inr n \<Rightarrow>
      if batch_size > int n then Inl ValueError
      else
        (case train_inputs d of Inl e \<Rightarrow> Inl e | Inr inputs \<Rightarrow>
        (case train_targets d of Inl e \<Rightarrow> Inl e | Inr targets \<Rightarrow>
        (case (if minibatch_idx d + batch_size > int n then next_epoch R None d g
               else Inr (d, g)) of
           Inl e \<Rightarrow> Inl e
         | Inr (d1, g1) \<Rightarrow>
             (let idx = py_slice (train_perm d1) (minibatch_idx d1) (minibatch_idx d1 + batch_size);
                  d2 = d1\<lparr>minibatch_indicies := Some idx,
                          minibatch_idx := minibatch_idx d1 + batch_size\<rparr>
              in case gather_all (train_inputs_flat d2) idx of Inl e \<Rightarrow> Inl e | Inr bi \<Rightarrow>
                 (case pack_sequence_as (inputs_structure d2) bi of Inl e \<Rightarrow> Inl e | Inr batch_inputs \<Rightarrow>
                 (case gather_all (train_targets_flat d2) idx of Inl e \<Rightarrow> Inl e | Inr bt \<Rightarrow>
                 (case pack_sequence_as (targets_structure d2) bt of Inl e \<Rightarrow> Inl e | Inr batch_targets \<Rightarrow>
                    Inr ((batch_inputs, batch_targets), d2, g1)))))))))"

text \<open>
  The datasets that \<open>minibatch\<close> can serve without an indexing or packing error: at least
  one input leaf, every training leaf with as many rows as the first, as many leaves as the
  structures have, and \<open>train_perm\<close> a permutation of the row numbers.
\<close>

definition wf_dataset :: "('r, 'm, 's) dataset \<Rightarrow> bool" where
  "wf_dataset d =
     (case train_inputs_flat d of
        [] \<Rightarrow> False
      | x # xs \<Rightarrow>
          list_all (\<lambda>l. length l = length x) xs \<and>
          list_all (\<lambda>l. length l = length x) (train_targets_flat d) \<and>
          length (train_inputs_flat d) = length (flatten (inputs_structure d)) \<and>
          length (train_targets_flat d) = length (flatten (targets_structure d)) \<and>
          mset (train_perm d) = mset [0..<length x])"

section \<open>The MultiDataset class\<close>

text \<open>
  A \<open>MultiDataset\<close> holds a sequence of \<open>Dataset\<close> objects.  \<open>min\<close> of an empty
  sequence raises; an error of a held dataset propagates.
\<close>

fun collect_errors :: "(error + 'a) list \<Rightarrow> error + 'a list" where
  "collect_errors [] = Inr []"
| "collect_errors (r # rs) =
     (case r of
        Inl e \<Rightarrow> Inl e
      | Inr v \<Rightarrow> (case collect_errors rs of Inl e \<Rightarrow> Inl e | Inr vs \<Rightarrow> Inr (v # vs)))"

definition py_min :: "nat list \<Rightarrow> error + nat" where
  "py_min xs = (case xs of [] \<Rightarrow> Inl ValueError | x # rest \<Rightarrow> Inr (fold min rest x))"

definition min_over ::
  "(('r, 'm, 's) dataset \<Rightarrow> error + nat) \<Rightarrow> ('r, 'm, 's) dataset list \<Rightarrow> error + nat" where
  "min_over counter ds =
     (case collect_errors (map counter ds) of Inl e \<Rightarrow> Inl e | Inr ns \<Rightarrow> py_min ns)"

definition multi_n_train_samples :: "('r, 'm, 's) dataset list \<Rightarrow> error + nat" where
  "multi_n_train_samples ds = min_over n_train_samples ds"

definition multi_n_test_samples :: "('r, 'm, 's) dataset list \<Rightarrow> error + nat" where
  "multi_n_test_samples ds = min_over n_test_samples ds"

definition multi_n_validation_samples :: "('r, 'm, 's) dataset list \<Rightarrow> error + nat" where
  "multi_n_validation_samples ds = min_over n_validation_samples ds"

fun minibatches ::
  "'g np_random \<Rightarrow> ('r, 'm, 's) dataset list \<Rightarrow> int \<Rightarrow> 'g
     \<Rightarrow> error + (('r list nest \<times> 'r list nest) list \<times> ('r, 'm, 's) dataset list \<times> 'g)" where
  "minibatches R [] batch_size g = Inr ([], [], g)"
| "minibatches R (d # ds) batch_size g =
     (case minibatch R d batch_size g of
        Inl e \<Rightarrow> Inl e
      | Inr (b, d', g1) \<Rightarrow>
          (case minibatches R ds batch_size g1 of
             Inl e \<Rightarrow> Inl e
           | Inr (bs, ds', g2) \<Rightarrow> Inr (b # bs, d' # ds', g2)))"

definition multi_minibatch ::
  "'g np_random \<Rightarrow> ('r, 'm, 's) dataset list \<Rightarrow> int \<Rightarrow> 'g
     \<Rightarrow> error + (('r list nest list \<times> 'r list nest list) \<times> ('r, 'm, 's) dataset list \<times> 'g)" where
  "multi_minibatch R ds batch_size g =
     (case multi_n_train_samples ds of Inl e \<Rightarrow> Inl e | Inr n \<Rightarrow>
      if batch_size > int n then Inl ValueError
      else
        (case minibatches R ds batch_size g of
           Inl e \<Rightarrow> Inl e
         | Inr (bs, ds', g') \<Rightarrow> Inr ((map fst bs, map snd bs), ds', g')))"

section \<open>Reference functions and sample objects\<close>

text \<open>\<open>rows_of leaves idx\<close>: the rows \<open>idx\<close> of every leaf, leaf by leaf.\<close>

definition rows_of :: "'a list list \<Rightarrow> nat list \<Rightarrow> 'a list list" where
  "rows_of leaves idx = map (\<lambda>x. map (\<lambda>i. x ! i) idx) leaves"

text \<open>
  Calling \<open>minibatch(batch_size)\<close> \<open>k\<close> times in a row, collecting the value of
  \<open>minibatch_indicies\<close> after each call.
\<close>

fun minibatch_calls ::
  "'g np_random \<Rightarrow> nat \<Rightarrow> ('r, 'm, 's) dataset \<Rightarrow> int \<Rightarrow> 'g
     \<Rightarrow> error + (nat list option list \<times> ('r, 'm, 's) dataset \<times> 'g)" where
  "minibatch_calls R 0 d batch_size g = Inr ([], d, g)"
| "minibatch_calls R (Suc k) d batch_size g =
     (case minibatch R d batch_size g of
        Inl e \<Rightarrow> Inl e
      | Inr (b, d', g') \<Rightarrow>
          (case minibatch_calls R k d' batch_size g' of
             Inl e \<Rightarrow> Inl e
           | Inr (is, d'', g'') \<Rightarrow> Inr (minibatch_indicies d' # is, d'', g'')))"

text \<open>
  A sample array library over one-dimensional integer arrays (integer mean, the length in
  place of the deviation), and the dataset that the constructor returns for two input
  leaves and one target leaf of four rows with a test set of two rows, without a split.
\<close>

definition demo_np :: "(int, int, int) np_array" where
  "demo_np =
     \<lparr>ndim = (\<lambda>xs. 1),
      np_mean = (\<lambda>xs ax. sum_list xs div int (length xs)),
      np_std = (\<lambda>xs ax. int (length xs)),
      np_mean_all = (\<lambda>xs. sum_list xs div int (length xs)),
      np_std_all = (\<lambda>xs. int (length xs)),
      np_sub = (\<lambda>xs m. map (\<lambda>x. x - m) xs),
      np_div = (\<lambda>xs s. map (\<lambda>x. x div s) xs)\<rparr>"

definition demo_dataset :: "(int, int, int) dataset" where
  "demo_dataset =
     \<lparr>inputs_label_flat = [''inputs0'', ''inputs1''], targets_label_flat = [''targets0''],
      inputs_structure = Seq TupleK [Leaf 0, Leaf 1], targets_structure = Leaf 0,
      train_idx = None, validation_idx = None,
      train_inputs_flat = [[10, 20, 30, 40], [1, 2, 3, 4]], train_targets_flat = [[0, 1, 0, 1]],
      validation_inputs_flat = None, validation_targets_flat = None,
      test_inputs_flat = Some [[50, 60], [5, 6]], test_targets_flat = Some [[1, 0]],
      inputs_mean_flat = [25, 2], inputs_std_flat = [4, 4],
      inputs_stationary_mean_flat = [25, 2], inputs_stationary_std_flat = [4, 4],
      minibatch_idx = 0, train_perm = [1, 2, 3, 0], minibatch_indicies = None,
      normalizer = (\<lambda>data. Inr data)\<rparr>"

text \<open>A sample dataset with one input leaf and one target leaf of \<open>n\<close> rows.\<close>

definition range_dataset :: "nat \<Rightarrow> (int, int, int) dataset" where
  "range_dataset n =
     \<lparr>inputs_label_flat = [''inputs0''], targets_label_flat = [''targets0''],
      inputs_structure = Leaf 0, targets_structure = Leaf 0,
      train_idx = None, validation_idx = None,
      train_inputs_flat = [map int [0..<n]], train_targets_flat = [map int [0..<n]],
      validation_inputs_flat = None, validation_targets_flat = None,
      test_inputs_flat = None, test_targets_flat = None,
      inputs_mean_flat = [0], inputs_std_flat = [int n],
      inputs_stationary_mean_flat = [0], inputs_stationary_std_flat = [int n],
      minibatch_idx = 0, train_perm = [0..<n], minibatch_indicies = None,
      normalizer = (\<lambda>data. Inr data)\<rparr>"

section \<open>Properties of the nested-structure and slicing helpers\<close>


lemma flatten_pack:
  "length (xs::'a list) = length (flatten (s::'b nest)) \<Longrightarrow> flatten (pack s xs) = xs"
  "length (xs::'a list) = length (concat (map flatten (ss::'b nest list))) \<Longrightarrow> concat (map flatten (pack_list ss xs)) = xs"
proof (induction s xs and ss xs rule: pack_pack_list.induct)
  case (1 b xs)
  then show ?case by (cases xs) auto
next
  case (2 k ss xs)
  then show ?case by simp
next
  case (3 xs)
  then show ?case by simp
next
  case (4 s ss xs)
  have a: "length (take (length (flatten s)) xs) = length (flatten s)"
    using 4(3) by simp
  have b: "length (drop (length (flatten s)) xs) = length (concat (map flatten ss))"
    using 4(3) by simp
  show ?case using 4(1)[OF a] 4(2)[OF b] by simp
qed

lemma gather_all_ok:
  "list_all (\<lambda>l. length l = N) ls \<Longrightarrow> list_all (\<lambda>i. i < N) idx \<Longrightarrow>
   gather_all ls idx = Inr (map (\<lambda>x. map (\<lambda>i. x ! i) idx) ls)"
  by (induction ls) (auto simp: gather_def)

lemma chunk_nil: "chunk B c [] = []"
  by (subst chunk.simps) simp

lemma chunk_short: "xs \<noteq> [] \<Longrightarrow> length xs < B \<Longrightarrow> chunk B c xs = (if c then [] else [xs])"
  by (subst chunk.simps) simp

lemma chunk_full:
  "1 \<le> B \<Longrightarrow> B \<le> length xs \<Longrightarrow> chunk B c xs = take B xs # chunk B c (drop B xs)"
  by (subst chunk.simps) auto

lemma ceil_small: "0 < n \<Longrightarrow> n < B \<Longrightarrow> (n + B - 1) div B = (1::nat)"
proof -
  assume a: "0 < n" "n < B"
  have "B \<le> n + B - 1" using a by simp
  moreover have "n + B - 1 < 2 * B" using a by simp
  ultimately show ?thesis
    by (intro Euclidean_Rings.div_nat_eqI) simp_all
qed

lemma ceil_step: "1 \<le> B \<Longrightarrow> B \<le> n \<Longrightarrow> (n + B - 1) div B = Suc ((n - B + B - 1) div B)"
proof -
  assume a: "1 \<le> B" "B \<le> n"
  have "n + B - 1 = (n - 1) + B" using a by simp
  then have "(n + B - 1) div B = ((n - 1) + B) div B" by simp
  also have "\<dots> = Suc ((n - 1) div B)" using a by (subst div_add_self2) simp_all
  finally have "(n + B - 1) div B = Suc ((n - 1) div B)" .
  moreover have "n - B + B - 1 = n - 1" using a by simp
  ultimately show ?thesis by simp
qed

lemma slice_from_nat: "pos \<le> length xs \<Longrightarrow> slice_from xs (int pos) = drop pos xs"
  by (simp add: slice_from_def slice_bound_def)

lemma slice_to_nat: "slice_to xs (int b) = take b xs"
  by (simp add: slice_to_def slice_bound_def min_def)

lemma py_slice_nat:
  "a \<le> b \<Longrightarrow> b \<le> length xs \<Longrightarrow> py_slice xs (int a) (int b) = take (b - a) (drop a xs)"
  by (simp add: py_slice_def slice_bound_def Let_def)

lemma get_data_ok:
  "list_all (\<lambda>l. length l = N) (flatten (data A)) \<Longrightarrow> list_all (\<lambda>i. i < N) idx \<Longrightarrow>
   get_data A idx = Inr (batch_of A idx)"
  by (simp add: get_data_def gather_all_ok pack_sequence_as_def batch_of_def)

lemma flatten_batch_of:
  "flatten (batch_of A idx) = map (\<lambda>x. map (\<lambda>i. x ! i) idx) (flatten (data A))"
  by (simp add: batch_of_def flatten_pack)

lemma emit_ok:
  "list_all (\<lambda>l. length l = N) (flatten (data A)) \<Longrightarrow> list_all (\<lambda>i. i < N) idx \<Longrightarrow>
   emit A idx st g = (Yield (batch_of A idx), st, g)"
  by (simp add: emit_def get_data_ok)

lemma list_all_take_drop:
  "list_all P xs \<Longrightarrow> list_all P (take n (drop m xs))"
  "list_all P xs \<Longrightarrow> list_all P (drop m xs)"
  by (auto simp: list_all_iff dest: in_set_takeD in_set_dropD)

lemma single_epoch_loop:
  assumes ne: "n_epochs A = 1" and bs: "batchsize A = int B" and B: "1 \<le> B"
    and fl: "flatten (data A) = x # xs" and same: "list_all (\<lambda>l. length l = length x) xs"
    and lp: "length perm = length x" and inb: "list_all (\<lambda>i. i < length x) perm"
  shows "pos \<le> length x \<Longrightarrow> length (chunk B (cutoff A) (drop pos perm)) < fuel \<Longrightarrow>
    gen_list R A fuel (Running perm (int pos) 0) g
      = Some (Inr (map (batch_of A) (chunk B (cutoff A) (drop pos perm))))"
proof (induction fuel arbitrary: pos)
  case 0
  then show ?case by simp
next
  case (Suc fuel)
  let ?N = "length x"
  have all: "list_all (\<lambda>l. length l = ?N) (flatten (data A))"
    using fl same by simp
  consider (fin) "pos = ?N" | (tail) "pos < ?N" "pos + B > ?N" | (full) "pos + B \<le> ?N"
    using Suc.prems(1) B by linarith
  then show ?case
  proof cases
    case fin
    have "chunk B (cutoff A) (drop pos perm) = []"
      using fin lp by (simp add: chunk_nil)
    moreover have "gen_next R A (Running perm (int pos) 0) g = (StopIteration, Finished, g)"
      using fin fl ne by (simp add: loop_body_def)
    ultimately show ?thesis by simp
  next
    case tail
    have ne0: "drop pos perm \<noteq> []" using tail lp by simp
    have len: "length (drop pos perm) < B" using tail lp by simp
    show ?thesis
    proof (cases "cutoff A")
      case True
      have "chunk B True (drop pos perm) = []"
        using ne0 len by (simp add: chunk_short)
      moreover have "gen_next R A (Running perm (int pos) 0) g = (StopIteration, Finished, g)"
        using tail fl ne bs True by (simp add: loop_body_def)
      ultimately show ?thesis using True by simp
    next
      case False
      have c: "chunk B False (drop pos perm) = [drop pos perm]"
        using ne0 len by (simp add: chunk_short)
      have e: "emit A (drop pos perm) Finished g = (Yield (batch_of A (drop pos perm)), Finished, g)"
        using all inb by (intro emit_ok[where N="?N"]) (simp_all add: list_all_take_drop)
      have "gen_next R A (Running perm (int pos) 0) g
              = (Yield (batch_of A (drop pos perm)), Finished, g)"
        using tail fl ne bs False e lp by (simp add: loop_body_def slice_from_nat)
      moreover have "fuel \<noteq> 0" using Suc.prems(2) c False by simp
      then obtain f where "fuel = Suc f" by (cases fuel) auto
      ultimately show ?thesis using c False by simp
    qed
  next
    case full
    have posN: "pos < ?N" using full B by linarith
    have ne0: "drop pos perm \<noteq> []" using posN lp by simp
    have len: "\<not> length (drop pos perm) < B" using full lp by simp
    have c: "chunk B (cutoff A) (drop pos perm)
               = take B (drop pos perm) # chunk B (cutoff A) (drop (pos + B) perm)"
      using len B by (simp add: chunk_full add.commute)
    have sl: "py_slice perm (int pos) (int pos + int B) = take B (drop pos perm)"
      using py_slice_nat[of pos "pos + B" perm] full lp by simp
    have e: "emit A (take B (drop pos perm)) (Running perm (int (pos + B)) 0) g
               = (Yield (batch_of A (take B (drop pos perm))), Running perm (int (pos + B)) 0, g)"
      using all inb by (intro emit_ok[where N="?N"]) (simp_all add: list_all_take_drop)
    have step: "gen_next R A (Running perm (int pos) 0) g
              = (Yield (batch_of A (take B (drop pos perm))), Running perm (int (pos + B)) 0, g)"
      using full posN fl ne bs e sl by (simp add: loop_body_def)
    have "length (chunk B (cutoff A) (drop (pos + B) perm)) < fuel"
      using Suc.prems(2) c by simp
    from Suc.IH[OF full this] step c show ?thesis by simp
  qed
qed

lemma length_chunk_keep: "1 \<le> B \<Longrightarrow> length (chunk B False xs) = (length xs + B - 1) div B"
proof (induction B "False" xs rule: chunk.induct)
  case (1 B xs)
  consider (a) "xs = []" | (b) "xs \<noteq> []" "length xs < B" | (c) "B \<le> length xs" "xs \<noteq> []"
    by fastforce
  then show ?case
  proof cases
    case a
    then show ?thesis using 1(2) by (simp add: chunk_nil)
  next
    case b
    then show ?thesis using ceil_small[of "length xs" B] by (simp add: chunk_short)
  next
    case c
    have "length (chunk B False (drop B xs)) = (length (drop B xs) + B - 1) div B"
      using 1(1) c 1(2) by simp
    then show ?thesis using c 1(2) ceil_step[of B "length xs"] by (simp add: chunk_full)
  qed
qed

lemma concat_chunk_keep: "1 \<le> B \<Longrightarrow> concat (chunk B False xs) = xs"
proof (induction B "False" xs rule: chunk.induct)
  case (1 B xs)
  consider (a) "xs = []" | (b) "xs \<noteq> []" "length xs < B" | (c) "B \<le> length xs" "xs \<noteq> []"
    by fastforce
  then show ?case
  proof cases
    case a
    then show ?thesis by (simp add: chunk_nil)
  next
    case b
    then show ?thesis by (simp add: chunk_short)
  next
    case c
    have "concat (chunk B False (drop B xs)) = drop B xs"
      using 1(1) c 1(2) by simp
    then show ?thesis using c 1(2) by (simp add: chunk_full)
  qed
qed

lemma length_chunk_cut: "1 \<le> B \<Longrightarrow> length (chunk B True xs) = length xs div B"
proof (induction B "True" xs rule: chunk.induct)
  case (1 B xs)
  consider (a) "xs = []" | (b) "xs \<noteq> []" "length xs < B" | (c) "B \<le> length xs" "xs \<noteq> []"
    by fastforce
  then show ?case
  proof cases
    case a
    then show ?thesis by (simp add: chunk_nil)
  next
    case b
    then show ?thesis by (simp add: chunk_short)
  next
    case c
    have "length (chunk B True (drop B xs)) = length (drop B xs) div B"
      using 1(1) c 1(2) by simp
    then show ?thesis using c 1(2) by (simp add: chunk_full le_div_geq)
  qed
qed

lemma chunk_cut_full: "1 \<le> B \<Longrightarrow> list_all (\<lambda>c. length c = B) (chunk B True xs)"
proof (induction B "True" xs rule: chunk.induct)
  case (1 B xs)
  consider (a) "xs = []" | (b) "xs \<noteq> []" "length xs < B" | (c) "B \<le> length xs" "xs \<noteq> []"
    by fastforce
  then show ?case
  proof cases
    case a
    then show ?thesis by (simp add: chunk_nil)
  next
    case b
    then show ?thesis by (simp add: chunk_short)
  next
    case c
    have "list_all (\<lambda>c. length c = B) (chunk B True (drop B xs))"
      using 1(1) c 1(2) by simp
    then show ?thesis using c 1(2) by (simp add: chunk_full)
  qed
qed

lemma perm_props:
  assumes "mset p = mset [0..<n]"
  shows "length p = n" "list_all (\<lambda>i. i < n) p" "distinct p" "set p = {0..<n}"
proof -
  show "length p = n" using assms by (metis length_upt mset_eq_length minus_nat.diff_0)
  have s: "set p = {0..<n}" using assms by (metis mset_eq_setD set_upt)
  then show "list_all (\<lambda>i. i < n) p" by (simp add: list_all_iff)
  show "distinct p" using assms by (metis distinct_upt mset_eq_imp_distinct_iff)
  show "set p = {0..<n}" by (rule s)
qed

lemma get_perm_props:
  assumes "valid_rng R"
  shows "length (fst (get_perm R A N g)) = N" "list_all (\<lambda>i. i < N) (fst (get_perm R A N g))"
proof -
  have "mset (fst (get_perm R A N g)) = mset [0..<N]"
    using assms by (simp add: get_perm_def valid_rng_def)
  then show "length (fst (get_perm R A N g)) = N" "list_all (\<lambda>i. i < N) (fst (get_perm R A N g))"
    by (rule perm_props)+
qed

lemma gen_list_Fresh:
  "flatten (data A) = x # xs \<Longrightarrow>
   gen_list R A (Suc f) Fresh g
     = gen_list R A (Suc f) (Running (fst (get_perm R A (length x) g)) 0 0)
         (snd (get_perm R A (length x) g))"
  by (simp add: split_def Let_def)

lemma sum_leaf_lengths:
  "j < length (flatten (data A)) \<Longrightarrow>
   (\<Sum>b\<leftarrow>map (batch_of A) cs. length (flatten b ! j)) = length (concat cs)"
  by (induction cs) (simp_all add: flatten_batch_of)

lemma mset_rotate_eq: "mset (rotate n xs) = mset xs"
proof -
  let ?k = "n mod length xs"
  have "mset xs = mset (take ?k xs @ drop ?k xs)"
    by (simp only: append_take_drop_id)
  also have "\<dots> = mset (take ?k xs) + mset (drop ?k xs)"
    by (simp only: mset_append)
  finally have a: "mset xs = mset (take ?k xs) + mset (drop ?k xs)" .
  have "mset (rotate n xs) = mset (drop ?k xs) + mset (take ?k xs)"
    by (simp only: rotate_drop_take mset_append)
  then show ?thesis using a by (simp only: add.commute)
qed

lemma valid_demo_rng: "valid_rng demo_rng"
  unfolding valid_rng_def demo_rng_def by (simp only: np_random.simps fst_conv mset_rotate_eq) simp

section \<open>Single-epoch batch generation\<close>

text \<open>
  Claim C3.  For data whose leaves all have \<open>N\<close> rows and a batch size \<open>B \<ge> 1\<close>,
  exhausting \<open>batchify(data, batchsize=B, n_epochs=1, cutoff=False)\<close> terminates and
  produces \<open>ceil(N / B)\<close> batches, and for every leaf position the lengths of that leaf
  over all batches add up to \<open>N\<close>; with \<open>cutoff=True\<close> it produces \<open>floor(N / B)\<close>
  batches all of whose leaves have exactly \<open>B\<close> rows.  The statement holds with and
  without shuffling, and for every bound on the resumptions above \<open>ceil(N / B)\<close>.
\<close>

theorem batchify_single_epoch_batches:
  assumes R: "valid_rng R"
    and fl: "flatten (data A) = x # xs" and same: "list_all (\<lambda>l. length l = length x) xs"
    and B: "1 \<le> B" and bs: "batchsize A = int B" and ne: "n_epochs A = 1"
    and fuel: "(length x + B - 1) div B < fuel"
  shows "\<exists>bs. gen_list R A fuel Fresh g = Some (Inr bs) \<and>
     (if cutoff A
      then length bs = length x div B \<and>
           list_all (\<lambda>b. list_all (\<lambda>l. length l = B) (flatten b)) bs
      else length bs = (length x + B - 1) div B \<and>
           list_all (\<lambda>j. (\<Sum>b\<leftarrow>bs. length (flatten b ! j)) = length x) [0..<Suc (length xs)])"
proof -
  define perm where "perm = fst (get_perm R A (length x) g)"
  define g' where "g' = snd (get_perm R A (length x) g)"
  have lp: "length perm = length x" and inb: "list_all (\<lambda>i. i < length x) perm"
    unfolding perm_def using get_perm_props[OF R] by blast+
  obtain f where f: "fuel = Suc f" using fuel by (cases fuel) auto
  let ?cs = "chunk B (cutoff A) (drop 0 perm)"
  have le: "length x div B \<le> (length x + B - 1) div B"
    using B by (intro div_le_mono) simp
  have "length ?cs < fuel"
    using fuel le B lp by (cases "cutoff A") (simp_all add: length_chunk_keep length_chunk_cut)
  then have run: "gen_list R A fuel (Running perm (int 0) 0) g' = Some (Inr (map (batch_of A) ?cs))"
    by (intro single_epoch_loop[OF ne bs B fl same lp inb]) simp_all
  have start: "gen_list R A fuel Fresh g = Some (Inr (map (batch_of A) ?cs))"
    using run gen_list_Fresh[OF fl, of R f g] by (simp add: f perm_def g'_def)
  show ?thesis
  proof (cases "cutoff A")
    case True
    have "list_all (\<lambda>c. length c = B) (chunk B True perm)" using B by (rule chunk_cut_full)
    then have "list_all (\<lambda>b. list_all (\<lambda>l. length l = B) (flatten b)) (map (batch_of A) (chunk B True perm))"
      by (simp add: list_all_iff flatten_batch_of)
    then show ?thesis using start True B lp by (simp add: length_chunk_cut)
  next
    case False
    have "(\<Sum>b\<leftarrow>map (batch_of A) (chunk B False perm). length (flatten b ! j)) = length x"
      if "j \<in> set [0..<Suc (length xs)]" for j
    proof -
      have "j < length (flatten (data A))" using that fl by auto
      then have "(\<Sum>b\<leftarrow>map (batch_of A) (chunk B False perm). length (flatten b ! j))
                   = length (concat (chunk B False perm))"
        by (rule sum_leaf_lengths)
      then show ?thesis using B lp by (simp only: concat_chunk_keep)
    qed
    then have "list_all (\<lambda>j. (\<Sum>b\<leftarrow>map (batch_of A) (chunk B False perm). length (flatten b ! j)) = length x)
            [0..<Suc (length xs)]"
      unfolding list_all_iff by blast
    then show ?thesis using start False B lp by (simp add: length_chunk_keep)
  qed
qed

theorem batchify_single_epoch_batches_witness:
  "valid_rng demo_rng \<and>
   gen_list demo_rng
      \<lparr>data = Seq TupleK [Leaf [10, 20, 30, 40, 50 :: nat], Leaf [1, 2, 3, 4, 5]],
       batchsize = 2, n_epochs = 1, shuffle = True, cutoff = False\<rparr> 4 Fresh (1 :: nat)
     = Some (Inr [Seq TupleK [Leaf [20, 30], Leaf [2, 3]],
                  Seq TupleK [Leaf [40, 50], Leaf [4, 5]],
                  Seq TupleK [Leaf [10], Leaf [1]]]) \<and>
   (\<exists>bs. gen_list demo_rng
      \<lparr>data = Seq TupleK [Leaf [10, 20, 30, 40, 50 :: nat], Leaf [1, 2, 3, 4, 5]],
       batchsize = 2, n_epochs = 1, shuffle = True, cutoff = False\<rparr> 4 Fresh (1 :: nat)
        = Some (Inr bs) \<and> length bs = 3 \<and>
      list_all (\<lambda>j. (\<Sum>b\<leftarrow>bs. length (flatten b ! j)) = 5) [0..<2])"
proof -
  let ?A = "\<lparr>data = Seq TupleK [Leaf [10, 20, 30, 40, 50 :: nat], Leaf [1, 2, 3, 4, 5]],
       batchsize = 2, n_epochs = 1, shuffle = True, cutoff = False\<rparr>"
  have run: "gen_list demo_rng ?A 4 Fresh (1 :: nat)
     = Some (Inr [Seq TupleK [Leaf [20, 30], Leaf [2, 3]],
                  Seq TupleK [Leaf [40, 50], Leaf [4, 5]],
                  Seq TupleK [Leaf [10], Leaf [1]]])"
    by code_simp
  have l5: "length [10, 20, 30, 40, 50 :: nat] = 5" and l1: "Suc (length [[1, 2, 3, 4, 5 :: nat]]) = 2"
    by simp_all
  have "\<exists>bs. gen_list demo_rng ?A 4 Fresh (1 :: nat) = Some (Inr bs) \<and>
     (if cutoff ?A
      then length bs = length [10, 20, 30, 40, 50 :: nat] div 2 \<and>
           list_all (\<lambda>b. list_all (\<lambda>l. length l = 2) (flatten b)) bs
      else length bs = (length [10, 20, 30, 40, 50 :: nat] + 2 - 1) div 2 \<and>
           list_all (\<lambda>j. (\<Sum>b\<leftarrow>bs. length (flatten b ! j)) = length [10, 20, 30, 40, 50 :: nat])
             [0..<Suc (length [[1, 2, 3, 4, 5 :: nat]])])"
    by (rule batchify_single_epoch_batches[OF valid_demo_rng, where B = 2]) simp_all
  then have "\<exists>bs. gen_list demo_rng ?A 4 Fresh (1 :: nat) = Some (Inr bs) \<and> length bs = 3 \<and>
      list_all (\<lambda>j. (\<Sum>b\<leftarrow>bs. length (flatten b ! j)) = 5) [0..<2]"
    unfolding l5 l1 by simp
  then show ?thesis using run valid_demo_rng by blast
qed

section \<open>Properties of the Dataset operations\<close>

lemma list_all_py_slice: "list_all P xs \<Longrightarrow> list_all P (py_slice xs a b)"
  by (simp add: py_slice_def Let_def list_all_take_drop)

lemma wf_datasetD:
  assumes "wf_dataset d" and "n_train_samples d = Inr n"
  shows "list_all (\<lambda>l. length l = n) (train_inputs_flat d)"
    and "list_all (\<lambda>l. length l = n) (train_targets_flat d)"
    and "length (train_inputs_flat d) = length (flatten (inputs_structure d))"
    and "length (train_targets_flat d) = length (flatten (targets_structure d))"
    and "mset (train_perm d) = mset [0..<n]"
  using assms by (auto simp: wf_dataset_def n_train_samples_def split: list.splits)

lemma wf_n_train_samples: "wf_dataset d \<Longrightarrow> \<exists>n. n_train_samples d = Inr n"
  by (auto simp: wf_dataset_def n_train_samples_def split: list.splits)

lemma next_epoch_eq:
  "n_train_samples d = Inr n \<Longrightarrow>
   next_epoch R seed d g =
     Inr (d\<lparr>minibatch_idx := 0, train_perm := fst (rperm R (reseed R seed g) n)\<rparr>,
          snd (rperm R (reseed R seed g) n))"
  by (simp add: next_epoch_def n_train_samples_def Let_def split_def split: list.splits)

lemma serve_ok:
  assumes all: "list_all (\<lambda>l. length l = n) leaves" and len: "length leaves = length (flatten s)"
    and idx: "list_all (\<lambda>i. i < n) idx"
  shows "gather_all leaves idx = Inr (rows_of leaves idx)"
    and "pack_sequence_as s (rows_of leaves idx) = Inr (pack s (rows_of leaves idx))"
  using assms by (simp_all add: gather_all_ok rows_of_def pack_sequence_as_def)

lemma minibatch_eq:
  assumes R: "valid_rng R" and wf: "wf_dataset d" and n: "n_train_samples d = Inr n"
  shows "minibatch R d b g =
     (if int n < b then Inl ValueError
      else
        let d1 = (if int n < minibatch_idx d + b
                  then d\<lparr>minibatch_idx := 0, train_perm := fst (rperm R g n)\<rparr> else d);
            g1 = (if int n < minibatch_idx d + b then snd (rperm R g n) else g);
            idx = py_slice (train_perm d1) (minibatch_idx d1) (minibatch_idx d1 + b)
        in Inr ((pack (inputs_structure d) (rows_of (train_inputs_flat d) idx),
                 pack (targets_structure d) (rows_of (train_targets_flat d) idx)),
                d1\<lparr>minibatch_indicies := Some idx, minibatch_idx := minibatch_idx d1 + b\<rparr>, g1))"
proof (cases "int n < b")
  case True
  then show ?thesis using n by (simp add: minibatch_def)
next
  case False
  note D = wf_datasetD[OF wf n]
  define d1 where "d1 = (if int n < minibatch_idx d + b
                  then d\<lparr>minibatch_idx := 0, train_perm := fst (rperm R g n)\<rparr> else d)"
  define g1 where "g1 = (if int n < minibatch_idx d + b then snd (rperm R g n) else g)"
  define idx where "idx = py_slice (train_perm d1) (minibatch_idx d1) (minibatch_idx d1 + b)"
  have ne: "(if minibatch_idx d + b > int n then next_epoch R None d g else Inr (d, g)) = Inr (d1, g1)"
    using next_epoch_eq[OF n, of R None g] by (simp add: d1_def g1_def reseed_def)
  have "mset (train_perm d1) = mset [0..<n]"
    using D(5) R by (simp add: d1_def valid_rng_def)
  then have "list_all (\<lambda>i. i < n) (train_perm d1)" by (rule perm_props)
  then have idx: "list_all (\<lambda>i. i < n) idx" unfolding idx_def by (rule list_all_py_slice)
  have same: "train_inputs_flat d1 = train_inputs_flat d" "train_targets_flat d1 = train_targets_flat d"
    "inputs_structure d1 = inputs_structure d" "targets_structure d1 = targets_structure d"
    by (simp_all add: d1_def)
  have ti: "train_inputs d = Inr (pack (inputs_structure d) (train_inputs_flat d))"
    and tt: "train_targets d = Inr (pack (targets_structure d) (train_targets_flat d))"
    using D(3,4) by (simp_all add: train_inputs_def train_targets_def pack_sequence_as_def)
  note si = serve_ok[OF D(1) D(3) idx] and st = serve_ok[OF D(2) D(4) idx]
  have "minibatch R d b g =
      Inr ((pack (inputs_structure d) (rows_of (train_inputs_flat d) idx),
                 pack (targets_structure d) (rows_of (train_targets_flat d) idx)),
                d1\<lparr>minibatch_indicies := Some idx, minibatch_idx := minibatch_idx d1 + b\<rparr>, g1)"
    unfolding minibatch_def using False n
    by (simp add: ti tt ne Let_def same si st idx_def[symmetric])
  then show ?thesis using False by (simp add: Let_def d1_def g1_def idx_def)
qed

lemma wf_demo_dataset: "wf_dataset demo_dataset"
  by (simp add: wf_dataset_def demo_dataset_def numeral_2_eq_2 numeral_3_eq_3)

lemma n_demo_dataset: "n_train_samples demo_dataset = Inr 4"
  by (simp add: n_train_samples_def demo_dataset_def)

lemma digit_chars: "char_of (48 :: nat) = CHR ''0''" "char_of (49 :: nat) = CHR ''1''"
  by code_simp+

lemma demo_dataset_constructed:
  "Dataset_init demo_rng demo_np (Seq TupleK [Leaf [10, 20, 30, 40], Leaf [1, 2, 3, 4]])
     (Leaf [0, 1, 0, 1]) (Some (Seq TupleK [Leaf [50, 60], Leaf [5, 6]])) (Some (Leaf [1, 0]))
     None None None 0 None None (1 :: nat) = Inr (demo_dataset, 2)"
  by (simp add: Dataset_init_def init_labels_def default_labels_def string_of_nat.simps
        has_same_batch_def pack_sequence_as_def check_set_def assert_same_structure_def
        finish_init_def update_stats_def get_stats_def n_train_samples_def next_epoch_def
        reseed_def demo_rng_def demo_np_def demo_dataset_def init_record_def Let_def digit_chars)

lemma flatten_pack_rows:
  "length leaves = length (flatten s) \<Longrightarrow> flatten (pack s (rows_of leaves idx)) = rows_of leaves idx"
  by (rule flatten_pack) (simp add: rows_of_def)

lemma wf_dataset_cursor [simp]:
  "wf_dataset (d\<lparr>minibatch_indicies := i, minibatch_idx := c\<rparr>) = wf_dataset d"
  by (simp add: wf_dataset_def cong: list.case_cong)

lemma n_train_samples_cursor [simp]:
  "n_train_samples (d\<lparr>minibatch_indicies := i, minibatch_idx := c\<rparr>) = n_train_samples d"
  by (simp add: n_train_samples_def)

lemma chunk_dvd: "1 \<le> B \<Longrightarrow> B dvd length xs \<Longrightarrow> chunk B True xs = chunk B False xs"
proof (induction B "True" xs rule: chunk.induct)
  case (1 B xs)
  consider (a) "xs = []" | (b) "xs \<noteq> []" "length xs < B" | (c) "B \<le> length xs" "xs \<noteq> []"
    by fastforce
  then show ?case
  proof cases
    case a
    then show ?thesis by (simp add: chunk_nil)
  next
    case b
    then have "\<not> B dvd length xs" by (auto dest: dvd_imp_le)
    then show ?thesis using 1(3) by simp
  next
    case c
    have "B dvd length (drop B xs)" using 1(3) c by (simp add: dvd_diff_nat)
    then have "chunk B True (drop B xs) = chunk B False (drop B xs)"
      using 1(1) c 1(2) by simp
    then show ?thesis using c 1(2) by (simp add: chunk_full)
  qed
qed

lemma minibatch_calls_in_epoch:
  assumes R: "valid_rng R" and B: "1 \<le> B"
  shows "wf_dataset d \<Longrightarrow> n_train_samples d = Inr n \<Longrightarrow> minibatch_idx d = int pos \<Longrightarrow>
    pos \<le> n \<Longrightarrow> B dvd (n - pos) \<Longrightarrow> k = length (chunk B True (drop pos (train_perm d))) \<Longrightarrow>
    \<exists>d'. minibatch_calls R k d (int B) g
           = Inr (map Some (chunk B True (drop pos (train_perm d))), d', g) \<and>
         wf_dataset d' \<and> n_train_samples d' = Inr n \<and> train_perm d' = train_perm d \<and>
         minibatch_idx d' = int n"
proof (induction k arbitrary: d pos)
  case 0
  have lp: "length (train_perm d) = n"
    using wf_datasetD(5)[OF "0.prems"(1,2)] by (rule perm_props)
  have "length (drop pos (train_perm d)) div B = 0"
    using 0(6) B by (simp add: length_chunk_cut)
  then have "n - pos < B" using lp B by (simp add: div_eq_0_iff)
  then have "n - pos = 0" using 0(5) by (auto dest: dvd_imp_le)
  then have "pos = n" using 0(4) by simp
  then show ?case using 0 lp by (simp add: chunk_nil)
next
  case (Suc k)
  have lp: "length (train_perm d) = n"
    using wf_datasetD(5)[OF Suc.prems(1,2)] by (rule perm_props)
  let ?xs = "drop pos (train_perm d)"
  have ne: "chunk B True ?xs \<noteq> []" using Suc.prems(6) by auto
  have full: "B \<le> length ?xs"
  proof (rule ccontr)
    assume "\<not> B \<le> length ?xs"
    then have "chunk B True ?xs = []"
      by (cases "?xs = []") (simp_all add: chunk_nil chunk_short)
    then show False using ne by simp
  qed
  then have le: "pos + B \<le> n" using lp B by simp
  have c: "chunk B True ?xs = take B ?xs # chunk B True (drop (pos + B) (train_perm d))"
    using full B by (simp add: chunk_full add.commute)
  define d1 where "d1 = d\<lparr>minibatch_indicies := Some (take B ?xs), minibatch_idx := int pos + int B\<rparr>"
  have sl: "py_slice (train_perm d) (int pos) (int pos + int B) = take B ?xs"
    using py_slice_nat[of pos "pos + B" "train_perm d"] le lp by simp
  have step: "minibatch R d (int B) g
      = Inr ((pack (inputs_structure d) (rows_of (train_inputs_flat d) (take B ?xs)),
              pack (targets_structure d) (rows_of (train_targets_flat d) (take B ?xs))), d1, g)"
    using minibatch_eq[OF R Suc.prems(1,2), of "int B" g] le Suc.prems(3) sl
    by (simp add: Let_def d1_def)
  have wf1: "wf_dataset d1" and n1: "n_train_samples d1 = Inr n"
    and p1: "train_perm d1 = train_perm d" and i1: "minibatch_idx d1 = int (pos + B)"
    and mi1: "minibatch_indicies d1 = Some (take B ?xs)"
    using Suc.prems(1,2) by (simp_all add: d1_def)
  have dv: "B dvd (n - (pos + B))" using Suc.prems(5) le
    by (metis diff_diff_left dvd_diff_nat dvd_refl)
  have k: "k = length (chunk B True (drop (pos + B) (train_perm d1)))"
    using Suc.prems(6) c p1 by simp
  from Suc.IH[OF wf1 n1 i1 le dv k] obtain d' where
    rest: "minibatch_calls R k d1 (int B) g
             = Inr (map Some (chunk B True (drop (pos + B) (train_perm d))), d', g)"
    and fin: "wf_dataset d'" "n_train_samples d' = Inr n" "train_perm d' = train_perm d"
      "minibatch_idx d' = int n"
    using p1 by auto
  have "minibatch_calls R (Suc k) d (int B) g = Inr (map Some (chunk B True ?xs), d', g)"
    using step rest mi1 c by simp
  then show ?case using fin by blast
qed


lemma distinct_concat_disjoint:
  assumes "distinct (concat xss)" and "i < j" and "j < length xss"
  shows "set (xss ! i) \<inter> set (xss ! j) = {}"
proof -
  have split: "xss = take j xss @ xss ! j # drop (Suc j) xss"
    using assms(3) by (rule id_take_nth_drop)
  have "xss ! i = take j xss ! i" using assms(2) by simp
  moreover have "i < length (take j xss)" using assms(2,3) by simp
  ultimately have "xss ! i \<in> set (take j xss)" by (metis nth_mem)
  then have sub: "set (xss ! i) \<subseteq> set (concat (take j xss))" by auto
  have "distinct (concat (take j xss) @ xss ! j @ concat (drop (Suc j) xss))"
    using assms(1) split by (metis concat.simps(2) concat_append)
  then have "set (concat (take j xss)) \<inter> set (xss ! j) = {}" by auto
  then show ?thesis using sub by blast
qed

lemma minibatch_rollover:
  assumes R: "valid_rng R" and wf: "wf_dataset d" and n: "n_train_samples d = Inr n"
    and over: "int n < minibatch_idx d + b" and b: "0 \<le> b" "b \<le> int n"
  shows "minibatch R d b g
     = minibatch R (d\<lparr>minibatch_idx := 0, train_perm := fst (rperm R g n)\<rparr>) b (snd (rperm R g n))"
proof -
  let ?d1 = "d\<lparr>minibatch_idx := 0, train_perm := fst (rperm R g n)\<rparr>"
  have wf1: "wf_dataset ?d1"
    using wf n R by (auto simp: wf_dataset_def n_train_samples_def valid_rng_def split: list.splits)
  have n1: "n_train_samples ?d1 = Inr n" using n by (simp add: n_train_samples_def)
  show ?thesis
    using over b
    by (simp add: minibatch_eq[OF R wf n] minibatch_eq[OF R wf1 n1] Let_def)
qed

section \<open>Serving a minibatch\<close>

text \<open>
  Claim C1.  For a dataset whose training leaves all have \<open>n\<close> rows and whose
  \<open>train_perm\<close> is a permutation of the row numbers, \<open>minibatch(batch_size)\<close> raises the
  \<open>ValueError\<close> exactly when \<open>batch_size > n\<close>, and raises nothing otherwise.  In the
  other case, if \<open>minibatch_idx + batch_size > n\<close> it first runs \<open>next_epoch()\<close>, which
  leaves the cursor at 0 and a freshly drawn permutation (the rest of the old one is not
  used); then the Python slice of the current permutation from the cursor to the cursor
  plus \<open>batch_size\<close> is recorded as \<open>minibatch_indicies\<close>, the cursor advances by
  \<open>batch_size\<close>, and the returned structures hold exactly the rows selected by the slice
  from every training input leaf and every training target leaf.
\<close>

theorem minibatch_serves_permutation_slice:
  assumes R: "valid_rng R" and wf: "wf_dataset d" and n: "n_train_samples d = Inr n"
  shows "(minibatch R d b g = Inl ValueError \<longleftrightarrow> int n < b) \<and>
     (int n < b \<or>
      (\<exists>d1 g1 idx batch_inputs batch_targets.
         (if int n < minibatch_idx d + b
          then next_epoch R None d g = Inr (d1, g1) \<and> minibatch_idx d1 = 0 \<and>
               train_perm d1 = fst (rperm R g n) \<and> mset (train_perm d1) = mset [0..<n]
          else d1 = d \<and> g1 = g) \<and>
         idx = py_slice (train_perm d1) (minibatch_idx d1) (minibatch_idx d1 + b) \<and>
         minibatch R d b g =
           Inr ((batch_inputs, batch_targets),
                d1\<lparr>minibatch_indicies := Some idx, minibatch_idx := minibatch_idx d1 + b\<rparr>, g1) \<and>
         flatten batch_inputs = rows_of (train_inputs_flat d) idx \<and>
         flatten batch_targets = rows_of (train_targets_flat d) idx))"
proof (cases "int n < b")
  case True
  then show ?thesis using minibatch_eq[OF R wf n, of b g] by simp
next
  case False
  note D = wf_datasetD[OF wf n]
  define d1 where "d1 = (if int n < minibatch_idx d + b
                  then d\<lparr>minibatch_idx := 0, train_perm := fst (rperm R g n)\<rparr> else d)"
  define g1 where "g1 = (if int n < minibatch_idx d + b then snd (rperm R g n) else g)"
  define idx where "idx = py_slice (train_perm d1) (minibatch_idx d1) (minibatch_idx d1 + b)"
  have run: "minibatch R d b g =
      Inr ((pack (inputs_structure d) (rows_of (train_inputs_flat d) idx),
            pack (targets_structure d) (rows_of (train_targets_flat d) idx)),
           d1\<lparr>minibatch_indicies := Some idx, minibatch_idx := minibatch_idx d1 + b\<rparr>, g1)"
    using minibatch_eq[OF R wf n, of b g] False by (simp add: Let_def d1_def g1_def idx_def)
  have epoch: "if int n < minibatch_idx d + b
          then next_epoch R None d g = Inr (d1, g1) \<and> minibatch_idx d1 = 0 \<and>
               train_perm d1 = fst (rperm R g n) \<and> mset (train_perm d1) = mset [0..<n]
          else d1 = d \<and> g1 = g"
    using next_epoch_eq[OF n, of R None g] R
    by (simp add: d1_def g1_def reseed_def valid_rng_def)
  have fi: "flatten (pack (inputs_structure d) (rows_of (train_inputs_flat d) idx))
              = rows_of (train_inputs_flat d) idx"
    and ft: "flatten (pack (targets_structure d) (rows_of (train_targets_flat d) idx))
              = rows_of (train_targets_flat d) idx"
    using D(3,4) by (simp_all add: flatten_pack_rows)
  have "minibatch R d b g \<noteq> Inl ValueError" using run by simp
  moreover have "\<exists>d1 g1 idx batch_inputs batch_targets.
         (if int n < minibatch_idx d + b
          then next_epoch R None d g = Inr (d1, g1) \<and> minibatch_idx d1 = 0 \<and>
               train_perm d1 = fst (rperm R g n) \<and> mset (train_perm d1) = mset [0..<n]
          else d1 = d \<and> g1 = g) \<and>
         idx = py_slice (train_perm d1) (minibatch_idx d1) (minibatch_idx d1 + b) \<and>
         minibatch R d b g =
           Inr ((batch_inputs, batch_targets),
                d1\<lparr>minibatch_indicies := Some idx, minibatch_idx := minibatch_idx d1 + b\<rparr>, g1) \<and>
         flatten batch_inputs = rows_of (train_inputs_flat d) idx \<and>
         flatten batch_targets = rows_of (train_targets_flat d) idx"
    using epoch run fi ft idx_def by blast
  ultimately show ?thesis using False by blast
qed

theorem minibatch_serves_permutation_slice_witness:
  "valid_rng demo_rng \<and> wf_dataset demo_dataset \<and> n_train_samples demo_dataset = Inr 4 \<and>
   (minibatch demo_rng demo_dataset 5 (2 :: nat) = Inl ValueError) \<and>
   (minibatch demo_rng demo_dataset 3 (2 :: nat) \<noteq> Inl ValueError) \<and>
   minibatch demo_rng demo_dataset 3 (2 :: nat)
       = Inr ((Seq TupleK [Leaf [20, 30, 40], Leaf [2, 3, 4]], Leaf [1, 0, 1]),
              demo_dataset\<lparr>minibatch_indicies := Some [1, 2, 3], minibatch_idx := 3\<rparr>, 2)"
proof -
  note t3 = minibatch_serves_permutation_slice[OF valid_demo_rng wf_demo_dataset n_demo_dataset, of 3 2]
  note t5 = minibatch_serves_permutation_slice[OF valid_demo_rng wf_demo_dataset n_demo_dataset, of 5 2]
  have a: "minibatch demo_rng demo_dataset 5 (2 :: nat) = Inl ValueError"
    using t5 by simp
  have b: "minibatch demo_rng demo_dataset 3 (2 :: nat) \<noteq> Inl ValueError"
    using t3 by simp
  have sel: "minibatch_idx demo_dataset = 0" "train_perm demo_dataset = [1, 2, 3, 0]"
    "train_inputs_flat demo_dataset = [[10, 20, 30, 40], [1, 2, 3, 4]]"
    "train_targets_flat demo_dataset = [[0, 1, 0, 1]]"
    "inputs_structure demo_dataset = Seq TupleK [Leaf 0, Leaf 1]"
    "targets_structure demo_dataset = Leaf 0"
    by (simp_all add: demo_dataset_def)
  have c: "minibatch demo_rng demo_dataset 3 (2 :: nat)
       = Inr ((Seq TupleK [Leaf [20, 30, 40], Leaf [2, 3, 4]], Leaf [1, 0, 1]),
              demo_dataset\<lparr>minibatch_indicies := Some [1, 2, 3], minibatch_idx := 3\<rparr>, 2)"
    using minibatch_eq[OF valid_demo_rng wf_demo_dataset n_demo_dataset, of 3 2]
    by (simp add: sel rows_of_def py_slice_def slice_bound_def Let_def)
  show ?thesis
    using a b c valid_demo_rng wf_demo_dataset n_demo_dataset by blast
qed

section \<open>One epoch of minibatches\<close>

text \<open>
  Claim C9.  Let the batch size \<open>B \<ge> 1\<close> divide the number \<open>n\<close> of training rows, and
  let the dataset stand at the start of an epoch: the cursor is 0, or the next call
  overflows and therefore starts a new epoch.  Then \<open>n div B\<close> consecutive calls of
  \<open>minibatch(B)\<close> succeed, every call records \<open>B\<close> indices, the recorded index lists
  put one after the other are the permutation of that epoch, hence a permutation of
  \<open>[0, n)\<close> without a repeated index, and the index sets of two different calls are
  disjoint.
\<close>

theorem minibatch_epoch_visits_each_index_once:
  assumes R: "valid_rng R" and wf: "wf_dataset d" and n: "n_train_samples d = Inr n"
    and B: "1 \<le> B" and dv: "B dvd n"
    and start: "minibatch_idx d = 0 \<or> int n < minibatch_idx d + int B"
  shows "\<exists>iss d' g'.
     minibatch_calls R (n div B) d (int B) g = Inr (map Some iss, d', g') \<and>
     length iss = n div B \<and>
     list_all (\<lambda>is. length is = B) iss \<and>
     concat iss = train_perm d' \<and>
     mset (concat iss) = mset [0..<n] \<and>
     distinct (concat iss) \<and>
     (\<forall>i j. i < j \<and> j < length iss \<longrightarrow> set (iss ! i) \<inter> set (iss ! j) = {})"
proof -
  define roll where "roll \<longleftrightarrow> minibatch_idx d \<noteq> 0 \<and> 0 < n"
  define d0 where "d0 = (if roll then d\<lparr>minibatch_idx := 0, train_perm := fst (rperm R g n)\<rparr> else d)"
  define g0 where "g0 = (if roll then snd (rperm R g n) else g)"
  have wf0: "wf_dataset d0"
    using wf n R by (auto simp: d0_def wf_dataset_def n_train_samples_def valid_rng_def split: list.splits)
  have n0: "n_train_samples d0 = Inr n" using n by (simp add: d0_def n_train_samples_def)
  have lp: "length (train_perm d0) = n" and ms: "mset (train_perm d0) = mset [0..<n]"
    and di: "distinct (train_perm d0)"
    using perm_props[OF wf_datasetD(5)[OF wf0 n0]] wf_datasetD(5)[OF wf0 n0] by simp_all
  have i0: "n = 0 \<or> minibatch_idx d0 = int 0" by (auto simp: d0_def roll_def)
  have same: "minibatch_calls R (n div B) d (int B) g = minibatch_calls R (n div B) d0 (int B) g0"
  proof (cases roll)
    case False
    then show ?thesis by (simp add: d0_def g0_def)
  next
    case True
    then have over: "int n < minibatch_idx d + int B" using start by (simp add: roll_def)
    have "B \<le> n" using True dv by (auto simp: roll_def dest: dvd_imp_le)
    then obtain k where k: "n div B = Suc k"
      using B by (cases "n div B") (auto simp: div_eq_0_iff)
    have "minibatch R d (int B) g = minibatch R d0 (int B) g0"
      using minibatch_rollover[OF R wf n over, of g] True \<open>B \<le> n\<close> by (simp add: d0_def g0_def)
    then show ?thesis by (simp add: k)
  qed
  let ?iss = "chunk B True (train_perm d0)"
  have len: "length ?iss = n div B" using B lp by (simp add: length_chunk_cut)
  have cc: "concat ?iss = train_perm d0"
    using B dv lp by (simp add: chunk_dvd concat_chunk_keep)
  have "\<exists>d'. minibatch_calls R (n div B) d0 (int B) g0 = Inr (map Some ?iss, d', g0) \<and>
         train_perm d' = train_perm d0"
  proof (cases "n = 0")
    case True
    then show ?thesis using lp by (simp add: chunk_nil)
  next
    case False
    then have c0: "minibatch_idx d0 = int 0" using i0 by simp
    have "B dvd (n - 0)" using dv by simp
    moreover have "n div B = length (chunk B True (drop 0 (train_perm d0)))" using len by simp
    ultimately show ?thesis
      using minibatch_calls_in_epoch[OF R B wf0 n0 c0, of "n div B" g0] by auto
  qed
  then obtain d' where run: "minibatch_calls R (n div B) d0 (int B) g0 = Inr (map Some ?iss, d', g0)"
    and p': "train_perm d' = train_perm d0" by blast
  have dc: "distinct (concat ?iss)" using di cc by simp
  have "\<forall>i j. i < j \<and> j < length ?iss \<longrightarrow> set (?iss ! i) \<inter> set (?iss ! j) = {}"
    using distinct_concat_disjoint[OF dc] by blast
  moreover have "list_all (\<lambda>is. length is = B) ?iss" using B by (rule chunk_cut_full)
  ultimately show ?thesis
    using same run len cc p' ms dc by (intro exI[of _ ?iss] exI[of _ d'] exI[of _ g0]) simp
qed


theorem minibatch_epoch_visits_each_index_once_witness:
  "valid_rng demo_rng \<and> wf_dataset demo_dataset \<and> n_train_samples demo_dataset = Inr 4 \<and>
   (1 :: nat) \<le> 2 \<and> (2 :: nat) dvd 4 \<and> minibatch_idx demo_dataset = 0 \<and>
   (\<exists>iss d' g'.
     minibatch_calls demo_rng (4 div 2) demo_dataset (int 2) (2 :: nat) = Inr (map Some iss, d', g') \<and>
     length iss = 4 div 2 \<and>
     list_all (\<lambda>is. length is = 2) iss \<and>
     concat iss = train_perm d' \<and>
     mset (concat iss) = mset [0..<4] \<and>
     distinct (concat iss) \<and>
     (\<forall>i j. i < j \<and> j < length iss \<longrightarrow> set (iss ! i) \<inter> set (iss ! j) = {}))"
proof -
  have c: "minibatch_idx demo_dataset = 0" by (simp add: demo_dataset_def)
  have h1: "(1 :: nat) \<le> 2" and h2: "(2 :: nat) dvd 4" by simp_all
  from c have s: "minibatch_idx demo_dataset = 0 \<or> int 4 < minibatch_idx demo_dataset + int 2" ..
  show ?thesis
    using minibatch_epoch_visits_each_index_once[OF valid_demo_rng wf_demo_dataset n_demo_dataset h1 h2 s, of 2]
      valid_demo_rng wf_demo_dataset n_demo_dataset c h1 h2
    by (intro conjI) assumption+
qed

section \<open>Properties of the MultiDataset operations\<close>

lemma collect_errors_Inr: "collect_errors (map Inr ns) = Inr ns"
  by (induction ns) simp_all

lemma py_min_Min: "ns \<noteq> [] \<Longrightarrow> py_min ns = Inr (Min (set ns))"
proof (cases ns)
  case Nil
  assume "ns \<noteq> []"
  then show ?thesis using Nil by simp
next
  case (Cons a list)
  have "fold min list a = Min (set (a # list))" by (rule Min.set_eq_fold[symmetric])
  then show ?thesis using Cons by (simp add: py_min_def)
qed

lemma min_over_Min:
  "ds \<noteq> [] \<Longrightarrow> map counter ds = map Inr ns \<Longrightarrow> min_over counter ds = Inr (Min (set ns))"
proof -
  assume a: "ds \<noteq> []" "map counter ds = map Inr ns"
  then have "ns \<noteq> []" by auto
  then show ?thesis using a(2) by (simp add: min_over_def collect_errors_Inr py_min_Min)
qed

lemma minibatch_ok:
  assumes "valid_rng R" "wf_dataset d" "n_train_samples d = Inr n" "b \<le> int n"
  shows "\<exists>r d' g'. minibatch R d b g = Inr (r, d', g')"
  using minibatch_eq[OF assms(1-3), of b g] assms(4) by (simp add: Let_def)

lemma minibatches_ok:
  assumes R: "valid_rng R"
  shows "list_all wf_dataset ds \<Longrightarrow> map n_train_samples ds = map Inr ns \<Longrightarrow>
    list_all (\<lambda>n. b \<le> int n) ns \<Longrightarrow>
    \<exists>bs ds' g'. minibatches R ds b g = Inr (bs, ds', g') \<and> length bs = length ds \<and>
       length ds' = length ds \<and>
       (\<forall>i<length ds. \<exists>gi gi'. minibatch R (ds ! i) b gi = Inr (bs ! i, ds' ! i, gi'))"
proof (induction ds arbitrary: ns g)
  case Nil
  then show ?case by simp
next
  case (Cons d ds)
  from Cons.prems(2) obtain n ns' where ns: "ns = n # ns'" and n: "n_train_samples d = Inr n"
    and rest: "map n_train_samples ds = map Inr ns'"
    by (cases ns) auto
  have wfd: "wf_dataset d" and wfs: "list_all wf_dataset ds" using Cons.prems(1) by simp_all
  have bn: "b \<le> int n" and bs': "list_all (\<lambda>n. b \<le> int n) ns'" using Cons.prems(3) ns by simp_all
  from minibatch_ok[OF R wfd n bn, of g] obtain r d' g1 where
    first: "minibatch R d b g = Inr (r, d', g1)" by blast
  from Cons.IH[OF wfs rest bs', of g1] obtain bs ds' g2 where
    run: "minibatches R ds b g1 = Inr (bs, ds', g2)" and lb: "length bs = length ds"
    and ld: "length ds' = length ds"
    and each: "\<forall>i<length ds. \<exists>gi gi'. minibatch R (ds ! i) b gi = Inr (bs ! i, ds' ! i, gi')"
    by blast
  have "minibatches R (d # ds) b g = Inr (r # bs, d' # ds', g2)"
    using first run by simp
  moreover have "\<forall>i<length (d # ds). \<exists>gi gi'.
      minibatch R ((d # ds) ! i) b gi = Inr ((r # bs) ! i, (d' # ds') ! i, gi')"
  proof (intro allI impI)
    fix i assume "i < length (d # ds)"
    then show "\<exists>gi gi'. minibatch R ((d # ds) ! i) b gi = Inr ((r # bs) ! i, (d' # ds') ! i, gi')"
      using first each by (cases i) auto
  qed
  ultimately show ?case using lb ld by (intro exI[of _ "r # bs"] exI[of _ "d' # ds'"] exI[of _ g2]) simp
qed

lemma wf_range_dataset: "wf_dataset (range_dataset n)"
  by (simp add: wf_dataset_def range_dataset_def)

lemma n_range_dataset:
  "n_train_samples (range_dataset n) = Inr n"
  "n_test_samples (range_dataset n) = Inr 0"
  "n_validation_samples (range_dataset n) = Inr 0"
  by (simp_all add: n_train_samples_def n_test_samples_def n_validation_samples_def range_dataset_def)

section \<open>Synchronised minibatches of a MultiDataset\<close>

text \<open>
  Claim C8.  For a \<open>MultiDataset\<close> holding at least one dataset, \<open>n_train_samples\<close>,
  \<open>n_test_samples\<close> and \<open>n_validation_samples\<close> are the minimum of the corresponding
  counts of the held datasets.  \<open>minibatch(batch_size)\<close> raises the size error exactly
  when \<open>batch_size\<close> exceeds the minimum of the training counts; otherwise it succeeds,
  every held dataset has served a minibatch of that size (each from its own cursor and
  permutation), and the inputs and the targets are returned as two sequences in the order
  of the held datasets.  With training sizes 10 and 20, \<open>minibatch(5)\<close> succeeds and
  \<open>minibatch(15)\<close> fails.
\<close>

theorem multi_minibatch_limited_by_smallest:
  assumes R: "valid_rng R" and ne: "ds \<noteq> []" and wf: "list_all wf_dataset ds"
    and ns: "map n_train_samples ds = map Inr ns"
    and ts: "map n_test_samples ds = map Inr ts"
    and vs: "map n_validation_samples ds = map Inr vs"
  shows "multi_n_train_samples ds = Inr (Min (set ns)) \<and>
     multi_n_test_samples ds = Inr (Min (set ts)) \<and>
     multi_n_validation_samples ds = Inr (Min (set vs)) \<and>
     (multi_minibatch R ds b g = Inl ValueError \<longleftrightarrow> int (Min (set ns)) < b) \<and>
     (int (Min (set ns)) < b \<or>
      (\<exists>bs ds' g'.
         multi_minibatch R ds b g = Inr ((map fst bs, map snd bs), ds', g') \<and>
         length bs = length ds \<and> length ds' = length ds \<and>
         (\<forall>i<length ds. \<exists>gi gi'. minibatch R (ds ! i) b gi = Inr (bs ! i, ds' ! i, gi'))))"
proof -
  have tr: "multi_n_train_samples ds = Inr (Min (set ns))"
    and te: "multi_n_test_samples ds = Inr (Min (set ts))"
    and va: "multi_n_validation_samples ds = Inr (Min (set vs))"
    using ne ns ts vs
    by (simp_all add: multi_n_train_samples_def multi_n_test_samples_def
          multi_n_validation_samples_def min_over_Min)
  have nne: "ns \<noteq> []" using ne ns by auto
  show ?thesis
  proof (cases "int (Min (set ns)) < b")
    case True
    then show ?thesis using tr te va by (simp add: multi_minibatch_def)
  next
    case False
    have "list_all (\<lambda>n. b \<le> int n) ns"
      unfolding list_all_iff
    proof
      fix n assume "n \<in> set ns"
      then have "Min (set ns) \<le> n" by simp
      then show "b \<le> int n" using False by linarith
    qed
    from minibatches_ok[OF R wf ns this, of g] obtain bs ds' g' where
      run: "minibatches R ds b g = Inr (bs, ds', g')" and l: "length bs = length ds" "length ds' = length ds"
      and each: "\<forall>i<length ds. \<exists>gi gi'. minibatch R (ds ! i) b gi = Inr (bs ! i, ds' ! i, gi')"
      by blast
    have res: "multi_minibatch R ds b g = Inr ((map fst bs, map snd bs), ds', g')"
      using False tr run by (simp add: multi_minibatch_def)
    then have "multi_minibatch R ds b g \<noteq> Inl ValueError" by simp
    moreover have "\<exists>bs ds' g'.
         multi_minibatch R ds b g = Inr ((map fst bs, map snd bs), ds', g') \<and>
         length bs = length ds \<and> length ds' = length ds \<and>
         (\<forall>i<length ds. \<exists>gi gi'. minibatch R (ds ! i) b gi = Inr (bs ! i, ds' ! i, gi'))"
      using res l each by blast
    ultimately show ?thesis using tr te va False by blast
  qed
qed

theorem multi_minibatch_limited_by_smallest_witness:
  "valid_rng demo_rng \<and> [range_dataset 10, range_dataset 20] \<noteq> [] \<and>
   list_all wf_dataset [range_dataset 10, range_dataset 20] \<and>
   map n_train_samples [range_dataset 10, range_dataset 20] = map Inr [10, 20] \<and>
   multi_n_train_samples [range_dataset 10, range_dataset 20] = Inr 10 \<and>
   multi_minibatch demo_rng [range_dataset 10, range_dataset 20] 15 (0 :: nat) = Inl ValueError \<and>
   (\<exists>bs ds' g'. multi_minibatch demo_rng [range_dataset 10, range_dataset 20] 5 (0 :: nat)
        = Inr ((map fst bs, map snd bs), ds', g') \<and> length bs = 2)"
proof -
  let ?ds = "[range_dataset 10, range_dataset 20]"
  have ne: "?ds \<noteq> []" by simp
  have wf: "list_all wf_dataset ?ds" by (simp add: wf_range_dataset)
  have ns: "map n_train_samples ?ds = map Inr [10, 20]"
    and ts: "map n_test_samples ?ds = map Inr [0, 0]"
    and vs: "map n_validation_samples ?ds = map Inr [0, 0]"
    by (simp_all add: n_range_dataset)
  note t15 = multi_minibatch_limited_by_smallest[OF valid_demo_rng ne wf ns ts vs, of 15 0]
  note t5 = multi_minibatch_limited_by_smallest[OF valid_demo_rng ne wf ns ts vs, of 5 0]
  have a: "multi_n_train_samples ?ds = Inr 10" using t5 by simp
  have b: "multi_minibatch demo_rng ?ds 15 (0 :: nat) = Inl ValueError" using t15 by simp
  have c: "\<exists>bs ds' g'. multi_minibatch demo_rng ?ds 5 (0 :: nat)
        = Inr ((map fst bs, map snd bs), ds', g') \<and> length bs = 2"
    using t5 by auto
  show ?thesis using valid_demo_rng ne wf ns a b c by blast
qed

section \<open>Properties of normalisation\<close>

lemma update_stats_eq:
  "train_inputs_flat d \<noteq> [] \<Longrightarrow>
   update_stats L axis d =
     Inr (d\<lparr>inputs_mean_flat := map (\<lambda>x. fst (get_stats L x axis)) (train_inputs_flat d),
            inputs_std_flat := map (\<lambda>x. fst (snd (get_stats L x axis))) (train_inputs_flat d),
            inputs_stationary_mean_flat :=
              map (\<lambda>x. fst (snd (snd (get_stats L x axis)))) (train_inputs_flat d),
            inputs_stationary_std_flat :=
              map (\<lambda>x. snd (snd (snd (get_stats L x axis)))) (train_inputs_flat d)\<rparr>)"
  by (simp add: update_stats_def Let_def split_def comp_def)

lemma update_stats_fail: "train_inputs_flat d = [] \<Longrightarrow> update_stats L axis d = Inl ValueError"
  by (simp add: update_stats_def)

lemma flatten_as_list [simp]: "flatten (as_list xs) = xs"
  by (induction xs) (simp_all add: as_list_def)

lemma length_normalized_data:
  "length xs \<le> length means \<Longrightarrow> length xs \<le> length stds \<Longrightarrow> length xs \<le> length control \<Longrightarrow>
   length (normalized_data L means stds control xs) = length xs"
  by (simp add: normalized_data_def)

lemma nth_normalized_data:
  "i < length xs \<Longrightarrow> length xs \<le> length means \<Longrightarrow> length xs \<le> length stds \<Longrightarrow>
   length xs \<le> length control \<Longrightarrow>
   normalized_data L means stds control xs ! i =
     (if control ! i then np_div L (np_sub L (xs ! i) (means ! i)) (stds ! i) else xs ! i)"
  by (simp add: normalized_data_def normalize_leaf_def)

lemma normalize_flat_eq:
  assumes "length xs \<le> length means" "length xs \<le> length stds" "length xs \<le> length control"
  shows "normalize_flat (normalize_inputs L means stds control) xs
           = Inr (normalized_data L means stds control xs)"
proof -
  have l: "length (normalized_data L means stds control xs) = length (flatten (as_list xs))"
    using assms by (simp add: length_normalized_data)
  then show ?thesis
    by (simp add: normalize_flat_def normalize_inputs_def pack_sequence_as_def flatten_pack)
qed

lemma normalize_optional_eq:
  assumes "case v of None \<Rightarrow> True | Some xs \<Rightarrow> length xs \<le> length means \<and>
             length xs \<le> length stds \<and> length xs \<le> length control"
  shows "normalize_optional (normalize_inputs L means stds control) v
           = Inr (map_option (normalized_data L means stds control) v)"
  using assms by (cases v) (simp_all add: normalize_optional_def normalize_flat_eq)


lemma normalize_eq:
  assumes ne: "train_inputs_flat d \<noteq> []"
    and d1: "update_stats L axis d = Inr d1"
    and lc: "length (train_inputs_flat d) \<le> length (control_list control (length (train_inputs_flat d)))"
    and lt: "case test_inputs_flat d of None \<Rightarrow> True
             | Some te \<Rightarrow> length te = length (train_inputs_flat d)"
    and lv: "case validation_inputs_flat d of None \<Rightarrow> True
             | Some va \<Rightarrow> length va = length (train_inputs_flat d)"
  shows "normalize L axis control d =
     update_stats L axis
       (d1\<lparr>normalizer := normalize_inputs L (inputs_mean_flat d1) (inputs_std_flat d1)
                            (control_list control (length (train_inputs_flat d))),
           train_inputs_flat := normalized_data L (inputs_mean_flat d1) (inputs_std_flat d1)
              (control_list control (length (train_inputs_flat d))) (train_inputs_flat d),
           test_inputs_flat := map_option (normalized_data L (inputs_mean_flat d1) (inputs_std_flat d1)
              (control_list control (length (train_inputs_flat d)))) (test_inputs_flat d),
           validation_inputs_flat := map_option (normalized_data L (inputs_mean_flat d1) (inputs_std_flat d1)
              (control_list control (length (train_inputs_flat d)))) (validation_inputs_flat d)\<rparr>)"
proof -
  let ?k = "length (train_inputs_flat d)"
  let ?c = "control_list control ?k"
  have d1eq: "d1 = d\<lparr>inputs_mean_flat := map (\<lambda>x. fst (get_stats L x axis)) (train_inputs_flat d),
            inputs_std_flat := map (\<lambda>x. fst (snd (get_stats L x axis))) (train_inputs_flat d),
            inputs_stationary_mean_flat :=
              map (\<lambda>x. fst (snd (snd (get_stats L x axis)))) (train_inputs_flat d),
            inputs_stationary_std_flat :=
              map (\<lambda>x. snd (snd (snd (get_stats L x axis)))) (train_inputs_flat d)\<rparr>"
    using d1 update_stats_eq[OF ne, of L axis] by simp
  have f: "train_inputs_flat d1 = train_inputs_flat d" "test_inputs_flat d1 = test_inputs_flat d"
    "validation_inputs_flat d1 = validation_inputs_flat d"
    "length (inputs_mean_flat d1) = ?k" "length (inputs_std_flat d1) = ?k"
    by (simp_all add: d1eq)
  have tr: "normalize_flat (normalize_inputs L (inputs_mean_flat d1) (inputs_std_flat d1) ?c)
              (train_inputs_flat d)
            = Inr (normalized_data L (inputs_mean_flat d1) (inputs_std_flat d1) ?c (train_inputs_flat d))"
    using lc f by (intro normalize_flat_eq) simp_all
  have te: "normalize_optional (normalize_inputs L (inputs_mean_flat d1) (inputs_std_flat d1) ?c)
              (test_inputs_flat d)
            = Inr (map_option (normalized_data L (inputs_mean_flat d1) (inputs_std_flat d1) ?c)
                     (test_inputs_flat d))"
    using lc lt f by (intro normalize_optional_eq) (simp split: option.splits)
  have va: "normalize_optional (normalize_inputs L (inputs_mean_flat d1) (inputs_std_flat d1) ?c)
              (validation_inputs_flat d)
            = Inr (map_option (normalized_data L (inputs_mean_flat d1) (inputs_std_flat d1) ?c)
                     (validation_inputs_flat d))"
    using lc lv f by (intro normalize_optional_eq) (simp split: option.splits)
  show ?thesis
    unfolding normalize_def d1 sum.case Let_def
    by (simp add: f tr te va)
qed


lemma update_stats_frame:
  assumes "update_stats L axis d = Inr d'"
  shows "\<exists>m s sm ss. d' = d\<lparr>inputs_mean_flat := m, inputs_std_flat := s,
           inputs_stationary_mean_flat := sm, inputs_stationary_std_flat := ss\<rparr>"
proof (cases "train_inputs_flat d = []")
  case True
  then show ?thesis using assms by (simp add: update_stats_fail)
next
  case False
  then show ?thesis using assms update_stats_eq[OF False, of L axis] by auto
qed

lemma normalize_frame:
  assumes "normalize L axis control d = Inr d'"
  shows "\<exists>tr te va m s sm ss f. d' = d\<lparr>train_inputs_flat := tr, test_inputs_flat := te,
           validation_inputs_flat := va, inputs_mean_flat := m, inputs_std_flat := s,
           inputs_stationary_mean_flat := sm, inputs_stationary_std_flat := ss, normalizer := f\<rparr>"
proof -
  from assms obtain d1 f tr te va where
    a: "update_stats L axis d = Inr d1"
    and b: "update_stats L axis (d1\<lparr>normalizer := f, train_inputs_flat := tr, test_inputs_flat := te,
              validation_inputs_flat := va\<rparr>) = Inr d'"
    by (auto simp: normalize_def Let_def split: sum.splits)
  from update_stats_frame[OF a] obtain m s sm ss where
    d1: "d1 = d\<lparr>inputs_mean_flat := m, inputs_std_flat := s,
           inputs_stationary_mean_flat := sm, inputs_stationary_std_flat := ss\<rparr>" by blast
  from update_stats_frame[OF b] obtain m' s' sm' ss' where
    d': "d' = d1\<lparr>normalizer := f, train_inputs_flat := tr, test_inputs_flat := te,
              validation_inputs_flat := va\<rparr>\<lparr>inputs_mean_flat := m', inputs_std_flat := s',
           inputs_stationary_mean_flat := sm', inputs_stationary_std_flat := ss'\<rparr>" by blast
  have "d' = d\<lparr>train_inputs_flat := tr, test_inputs_flat := te,
           validation_inputs_flat := va, inputs_mean_flat := m', inputs_std_flat := s',
           inputs_stationary_mean_flat := sm', inputs_stationary_std_flat := ss', normalizer := f\<rparr>"
    by (simp add: d' d1)
  then show ?thesis by blast
qed

lemma normalize_result:
  assumes ne: "train_inputs_flat d \<noteq> []"
    and lc: "length (train_inputs_flat d) \<le> length (control_list control (length (train_inputs_flat d)))"
    and lt: "case test_inputs_flat d of None \<Rightarrow> True
             | Some te \<Rightarrow> length te = length (train_inputs_flat d)"
    and lv: "case validation_inputs_flat d of None \<Rightarrow> True
             | Some va \<Rightarrow> length va = length (train_inputs_flat d)"
  shows "\<exists>d1 d'. update_stats L axis d = Inr d1 \<and> normalize L axis control d = Inr d' \<and>
     inputs_mean_flat d1 = map (\<lambda>x. fst (get_stats L x axis)) (train_inputs_flat d) \<and>
     inputs_std_flat d1 = map (\<lambda>x. fst (snd (get_stats L x axis))) (train_inputs_flat d) \<and>
     train_inputs_flat d' = normalized_data L (inputs_mean_flat d1) (inputs_std_flat d1)
        (control_list control (length (train_inputs_flat d))) (train_inputs_flat d) \<and>
     test_inputs_flat d' = map_option (normalized_data L (inputs_mean_flat d1) (inputs_std_flat d1)
        (control_list control (length (train_inputs_flat d)))) (test_inputs_flat d) \<and>
     validation_inputs_flat d' = map_option (normalized_data L (inputs_mean_flat d1) (inputs_std_flat d1)
        (control_list control (length (train_inputs_flat d)))) (validation_inputs_flat d) \<and>
     normalizer d' = normalize_inputs L (inputs_mean_flat d1) (inputs_std_flat d1)
        (control_list control (length (train_inputs_flat d)))"
proof -
  let ?k = "length (train_inputs_flat d)"
  let ?c = "control_list control ?k"
  define d1 where "d1 = d\<lparr>inputs_mean_flat := map (\<lambda>x. fst (get_stats L x axis)) (train_inputs_flat d),
            inputs_std_flat := map (\<lambda>x. fst (snd (get_stats L x axis))) (train_inputs_flat d),
            inputs_stationary_mean_flat :=
              map (\<lambda>x. fst (snd (snd (get_stats L x axis)))) (train_inputs_flat d),
            inputs_stationary_std_flat :=
              map (\<lambda>x. snd (snd (snd (get_stats L x axis)))) (train_inputs_flat d)\<rparr>"
  have u1: "update_stats L axis d = Inr d1" using update_stats_eq[OF ne] by (simp add: d1_def)
  have m: "inputs_mean_flat d1 = map (\<lambda>x. fst (get_stats L x axis)) (train_inputs_flat d)"
    and s: "inputs_std_flat d1 = map (\<lambda>x. fst (snd (get_stats L x axis))) (train_inputs_flat d)"
    by (simp_all add: d1_def)
  define d2 where "d2 = d1\<lparr>normalizer := normalize_inputs L (inputs_mean_flat d1) (inputs_std_flat d1) ?c,
           train_inputs_flat := normalized_data L (inputs_mean_flat d1) (inputs_std_flat d1) ?c (train_inputs_flat d),
           test_inputs_flat := map_option (normalized_data L (inputs_mean_flat d1) (inputs_std_flat d1) ?c) (test_inputs_flat d),
           validation_inputs_flat := map_option (normalized_data L (inputs_mean_flat d1) (inputs_std_flat d1) ?c) (validation_inputs_flat d)\<rparr>"
  have n: "normalize L axis control d = update_stats L axis d2"
    using normalize_eq[OF ne u1 lc lt lv] by (simp add: d2_def)
  have "length (train_inputs_flat d2) = ?k"
    using lc by (simp add: d2_def m s length_normalized_data)
  then have ne2: "train_inputs_flat d2 \<noteq> []" using ne by auto
  define d' where "d' = d2\<lparr>inputs_mean_flat := map (\<lambda>x. fst (get_stats L x axis)) (train_inputs_flat d2),
            inputs_std_flat := map (\<lambda>x. fst (snd (get_stats L x axis))) (train_inputs_flat d2),
            inputs_stationary_mean_flat :=
              map (\<lambda>x. fst (snd (snd (get_stats L x axis)))) (train_inputs_flat d2),
            inputs_stationary_std_flat :=
              map (\<lambda>x. snd (snd (snd (get_stats L x axis)))) (train_inputs_flat d2)\<rparr>"
  have u2: "normalize L axis control d = Inr d'"
    using n update_stats_eq[OF ne2, of L axis] by (simp add: d'_def)
  have "train_inputs_flat d' = normalized_data L (inputs_mean_flat d1) (inputs_std_flat d1) ?c (train_inputs_flat d)"
    "test_inputs_flat d' = map_option (normalized_data L (inputs_mean_flat d1) (inputs_std_flat d1) ?c) (test_inputs_flat d)"
    "validation_inputs_flat d' = map_option (normalized_data L (inputs_mean_flat d1) (inputs_std_flat d1) ?c) (validation_inputs_flat d)"
    "normalizer d' = normalize_inputs L (inputs_mean_flat d1) (inputs_std_flat d1) ?c"
    by (simp_all add: d'_def d2_def)
  then show ?thesis using u1 u2 m s by blast
qed

lemma demo_dataset_fields:
  "train_inputs_flat demo_dataset = [[10, 20, 30, 40], [1, 2, 3, 4]]"
  "train_targets_flat demo_dataset = [[0, 1, 0, 1]]"
  "test_inputs_flat demo_dataset = Some [[50, 60], [5, 6]]"
  "test_targets_flat demo_dataset = Some [[1, 0]]"
  "validation_inputs_flat demo_dataset = None"
  "validation_targets_flat demo_dataset = None"
  "inputs_structure demo_dataset = Seq TupleK [Leaf 0, Leaf 1]"
  "targets_structure demo_dataset = Leaf 0"
  "minibatch_idx demo_dataset = 0"
  "train_perm demo_dataset = [1, 2, 3, 0]"
  by (simp_all add: demo_dataset_def)

lemma demo_stats:
  "get_stats demo_np [10, 20, 30, 40] None = (25, 4, 25, 4)"
  "get_stats demo_np [1, 2, 3, 4] None = (2, 4, 2, 4)"
  by (simp_all add: get_stats_def demo_np_def)

section \<open>What normalisation leaves alone\<close>

text \<open>
  Claim C10.  A call \<open>normalize(axis, control)\<close> that returns leaves the training, test
  and validation target leaves, the input and target labels and the two nesting
  structures as they were, also as seen through the packing properties; the resulting
  object differs from the original at most in the three input leaf lists, the four
  statistics and the normalizer.
\<close>

theorem normalize_leaves_targets_unchanged:
  assumes "normalize L axis control d = Inr d'"
  shows "train_targets_flat d' = train_targets_flat d \<and>
     test_targets_flat d' = test_targets_flat d \<and>
     validation_targets_flat d' = validation_targets_flat d \<and>
     inputs_label_flat d' = inputs_label_flat d \<and>
     targets_label_flat d' = targets_label_flat d \<and>
     inputs_structure d' = inputs_structure d \<and>
     targets_structure d' = targets_structure d \<and>
     train_targets d' = train_targets d \<and>
     test_targets d' = test_targets d \<and>
     validation_targets d' = validation_targets d \<and>
     inputs_label d' = inputs_label d \<and>
     targets_label d' = targets_label d \<and>
     (\<exists>tr te va m s sm ss f. d' = d\<lparr>train_inputs_flat := tr, test_inputs_flat := te,
           validation_inputs_flat := va, inputs_mean_flat := m, inputs_std_flat := s,
           inputs_stationary_mean_flat := sm, inputs_stationary_std_flat := ss, normalizer := f\<rparr>)"
proof -
  from normalize_frame[OF assms] obtain tr te va m s sm ss f where
    d': "d' = d\<lparr>train_inputs_flat := tr, test_inputs_flat := te,
           validation_inputs_flat := va, inputs_mean_flat := m, inputs_std_flat := s,
           inputs_stationary_mean_flat := sm, inputs_stationary_std_flat := ss, normalizer := f\<rparr>"
    by blast
  have fields: "train_targets_flat d' = train_targets_flat d"
    "test_targets_flat d' = test_targets_flat d"
    "validation_targets_flat d' = validation_targets_flat d"
    "inputs_label_flat d' = inputs_label_flat d"
    "targets_label_flat d' = targets_label_flat d"
    "inputs_structure d' = inputs_structure d"
    "targets_structure d' = targets_structure d"
    by (simp_all add: d')
  have props: "train_targets d' = train_targets d" "test_targets d' = test_targets d"
    "validation_targets d' = validation_targets d" "inputs_label d' = inputs_label d"
    "targets_label d' = targets_label d"
    by (simp_all add: train_targets_def test_targets_def validation_targets_def inputs_label_def
          targets_label_def fields)
  show ?thesis using fields props d' by blast
qed

theorem normalize_leaves_targets_unchanged_witness:
  "\<exists>d'. normalize demo_np None None demo_dataset = Inr d' \<and>
     train_targets_flat d' = [[0, 1, 0, 1]] \<and> test_targets_flat d' = Some [[1, 0]] \<and>
     validation_targets_flat d' = None \<and>
     train_targets_flat d' = train_targets_flat demo_dataset \<and>
     test_targets_flat d' = test_targets_flat demo_dataset \<and>
     validation_targets_flat d' = validation_targets_flat demo_dataset \<and>
     inputs_label_flat d' = inputs_label_flat demo_dataset \<and>
     targets_label_flat d' = targets_label_flat demo_dataset \<and>
     inputs_structure d' = inputs_structure demo_dataset \<and>
     targets_structure d' = targets_structure demo_dataset \<and>
     train_inputs_flat d' \<noteq> train_inputs_flat demo_dataset"
proof -
  have ne: "train_inputs_flat demo_dataset \<noteq> []" by (simp add: demo_dataset_fields)
  have lc: "length (train_inputs_flat demo_dataset)
              \<le> length (control_list None (length (train_inputs_flat demo_dataset)))"
    by (simp add: control_list_def)
  have lt: "case test_inputs_flat demo_dataset of None \<Rightarrow> True
            | Some te \<Rightarrow> length te = length (train_inputs_flat demo_dataset)"
    by (simp add: demo_dataset_fields)
  have lv: "case validation_inputs_flat demo_dataset of None \<Rightarrow> True
            | Some va \<Rightarrow> length va = length (train_inputs_flat demo_dataset)"
    by (simp add: demo_dataset_fields)
  from normalize_result[OF ne lc lt lv, of demo_np None] show ?thesis
  proof (elim exE conjE)
    fix d1 d'
    assume n: "normalize demo_np None None demo_dataset = Inr d'"
      and m: "inputs_mean_flat d1 = map (\<lambda>x. fst (get_stats demo_np x None)) (train_inputs_flat demo_dataset)"
      and s: "inputs_std_flat d1 = map (\<lambda>x. fst (snd (get_stats demo_np x None))) (train_inputs_flat demo_dataset)"
      and tr: "train_inputs_flat d' = normalized_data demo_np (inputs_mean_flat d1) (inputs_std_flat d1)
          (control_list None (length (train_inputs_flat demo_dataset))) (train_inputs_flat demo_dataset)"
    have "train_inputs_flat d' = [[- 4, - 2, 1, 3], [- 1, 0, 0, 0]]"
      by (simp add: tr m s demo_dataset_fields demo_stats normalized_data_def normalize_leaf_def
            control_list_def numeral_2_eq_2) (simp add: demo_np_def)
    then have diff: "train_inputs_flat d' \<noteq> train_inputs_flat demo_dataset"
      by (simp add: demo_dataset_fields)
    show ?thesis
      using normalize_leaves_targets_unchanged[OF n] n diff
      by (intro exI[of _ d']) (simp add: demo_dataset_fields)
  qed
qed

section \<open>What normalisation does to the input leaves\<close>

text \<open>
  Claim C5.  Let the dataset have \<open>k \<ge> 1\<close> training input leaves, test and validation
  input sets (when present) of \<open>k\<close> leaves, and a control sequence \<open>c\<close> of at least
  \<open>k\<close> entries (the flattened \<open>control\<close> argument, or all true when it is not given).
  Then \<open>normalize(axis, control)\<close> returns; with \<open>d1\<close> the object after the first
  \<open>update_stats(axis)\<close>, whose mean and deviation of leaf \<open>i\<close> are the ones
  \<open>get_stats\<close> computes on the training leaf \<open>i\<close> before the call, every training
  leaf \<open>i\<close> with \<open>c[i]\<close> true becomes \<open>(leaf - mean_i) / std_i\<close> and every other one
  is kept as it is, the same holds leaf by leaf for the test and the validation inputs with
  the training statistics, and the stored normalizer is the transform built from these
  statistics and \<open>c\<close>.  The arithmetic is the array library's and is a parameter here.
\<close>

theorem normalize_applies_training_statistics:
  assumes k: "k = length (train_inputs_flat d)" and c: "c = control_list control k"
    and ne: "train_inputs_flat d \<noteq> []"
    and lc: "k \<le> length c"
    and lt: "case test_inputs_flat d of None \<Rightarrow> True | Some te \<Rightarrow> length te = k"
    and lv: "case validation_inputs_flat d of None \<Rightarrow> True | Some va \<Rightarrow> length va = k"
  shows "\<exists>d1 d'. update_stats L axis d = Inr d1 \<and> normalize L axis control d = Inr d' \<and>
     normalizer d' = normalize_inputs L (inputs_mean_flat d1) (inputs_std_flat d1) c \<and>
     length (train_inputs_flat d') = k \<and>
     (\<forall>i<k. inputs_mean_flat d1 ! i = fst (get_stats L (train_inputs_flat d ! i) axis) \<and>
            inputs_std_flat d1 ! i = fst (snd (get_stats L (train_inputs_flat d ! i) axis)) \<and>
            train_inputs_flat d' ! i =
              (if c ! i
               then np_div L (np_sub L (train_inputs_flat d ! i) (inputs_mean_flat d1 ! i))
                      (inputs_std_flat d1 ! i)
               else train_inputs_flat d ! i)) \<and>
     (case test_inputs_flat d of
        None \<Rightarrow> test_inputs_flat d' = None
      | Some te \<Rightarrow>
          (\<exists>te'. test_inputs_flat d' = Some te' \<and> length te' = k \<and>
             (\<forall>i<k. te' ! i =
                (if c ! i
                 then np_div L (np_sub L (te ! i) (inputs_mean_flat d1 ! i)) (inputs_std_flat d1 ! i)
                 else te ! i)))) \<and>
     (case validation_inputs_flat d of
        None \<Rightarrow> validation_inputs_flat d' = None
      | Some va \<Rightarrow>
          (\<exists>va'. validation_inputs_flat d' = Some va' \<and> length va' = k \<and>
             (\<forall>i<k. va' ! i =
                (if c ! i
                 then np_div L (np_sub L (va ! i) (inputs_mean_flat d1 ! i)) (inputs_std_flat d1 ! i)
                 else va ! i)))) \<and>
     (control = None \<longrightarrow> (\<forall>i<k. c ! i))"
proof -
  have lc': "length (train_inputs_flat d) \<le> length (control_list control (length (train_inputs_flat d)))"
    using lc k c by simp
  have lt': "case test_inputs_flat d of None \<Rightarrow> True
             | Some te \<Rightarrow> length te = length (train_inputs_flat d)"
    using lt k by (auto split: option.splits)
  have lv': "case validation_inputs_flat d of None \<Rightarrow> True
             | Some va \<Rightarrow> length va = length (train_inputs_flat d)"
    using lv k by (auto split: option.splits)
  from normalize_result[OF ne lc' lt' lv', of L axis] obtain d1 d' where
    u: "update_stats L axis d = Inr d1" and n: "normalize L axis control d = Inr d'"
    and m: "inputs_mean_flat d1 = map (\<lambda>x. fst (get_stats L x axis)) (train_inputs_flat d)"
    and s: "inputs_std_flat d1 = map (\<lambda>x. fst (snd (get_stats L x axis))) (train_inputs_flat d)"
    and tr: "train_inputs_flat d' = normalized_data L (inputs_mean_flat d1) (inputs_std_flat d1) c
               (train_inputs_flat d)"
    and te: "test_inputs_flat d' = map_option (normalized_data L (inputs_mean_flat d1)
               (inputs_std_flat d1) c) (test_inputs_flat d)"
    and va: "validation_inputs_flat d' = map_option (normalized_data L (inputs_mean_flat d1)
               (inputs_std_flat d1) c) (validation_inputs_flat d)"
    and f: "normalizer d' = normalize_inputs L (inputs_mean_flat d1) (inputs_std_flat d1) c"
    unfolding k[symmetric] c[symmetric] by blast
  have lm: "length (inputs_mean_flat d1) = k" and ls: "length (inputs_std_flat d1) = k"
    using m s k by simp_all
  have leaf: "length (normalized_data L (inputs_mean_flat d1) (inputs_std_flat d1) c xs) = k \<and>
      (\<forall>i<k. normalized_data L (inputs_mean_flat d1) (inputs_std_flat d1) c xs ! i =
          (if c ! i
           then np_div L (np_sub L (xs ! i) (inputs_mean_flat d1 ! i)) (inputs_std_flat d1 ! i)
           else xs ! i))"
    if "length xs = k" for xs
    using that lm ls lc by (simp add: length_normalized_data nth_normalized_data)
  have p1: "length (train_inputs_flat d') = k"
    using leaf[of "train_inputs_flat d"] k tr by simp
  have p2: "\<forall>i<k. inputs_mean_flat d1 ! i = fst (get_stats L (train_inputs_flat d ! i) axis) \<and>
            inputs_std_flat d1 ! i = fst (snd (get_stats L (train_inputs_flat d ! i) axis)) \<and>
            train_inputs_flat d' ! i =
              (if c ! i
               then np_div L (np_sub L (train_inputs_flat d ! i) (inputs_mean_flat d1 ! i))
                      (inputs_std_flat d1 ! i)
               else train_inputs_flat d ! i)"
    using leaf[of "train_inputs_flat d"] k tr m s by simp
  have p3: "case test_inputs_flat d of
        None \<Rightarrow> test_inputs_flat d' = None
      | Some te \<Rightarrow>
          (\<exists>te'. test_inputs_flat d' = Some te' \<and> length te' = k \<and>
             (\<forall>i<k. te' ! i =
                (if c ! i
                 then np_div L (np_sub L (te ! i) (inputs_mean_flat d1 ! i)) (inputs_std_flat d1 ! i)
                 else te ! i)))"
  proof (cases "test_inputs_flat d")
    case None
    then show ?thesis using te by simp
  next
    case (Some xs)
    then have "length xs = k" using lt by simp
    from leaf[OF this] show ?thesis using Some te by simp
  qed
  have p4: "case validation_inputs_flat d of
        None \<Rightarrow> validation_inputs_flat d' = None
      | Some va \<Rightarrow>
          (\<exists>va'. validation_inputs_flat d' = Some va' \<and> length va' = k \<and>
             (\<forall>i<k. va' ! i =
                (if c ! i
                 then np_div L (np_sub L (va ! i) (inputs_mean_flat d1 ! i)) (inputs_std_flat d1 ! i)
                 else va ! i)))"
  proof (cases "validation_inputs_flat d")
    case None
    then show ?thesis using va by simp
  next
    case (Some xs)
    then have "length xs = k" using lv by simp
    from leaf[OF this] show ?thesis using Some va by simp
  qed
  have p5: "control = None \<longrightarrow> (\<forall>i<k. c ! i)"
    using c by (simp add: control_list_def)
  show ?thesis using u n f p1 p2 p3 p4 p5 by blast
qed

theorem normalize_applies_training_statistics_witness:
  "(2 :: nat) = length (train_inputs_flat demo_dataset) \<and>
   [True, False] = control_list (Some (Seq TupleK [Leaf True, Leaf False])) 2 \<and>
   train_inputs_flat demo_dataset \<noteq> [] \<and> (2 :: nat) \<le> length [True, False] \<and>
   (case test_inputs_flat demo_dataset of None \<Rightarrow> True | Some te \<Rightarrow> length te = 2) \<and>
   (case validation_inputs_flat demo_dataset of None \<Rightarrow> True | Some va \<Rightarrow> length va = 2) \<and>
   (\<exists>d'. normalize demo_np None (Some (Seq TupleK [Leaf True, Leaf False])) demo_dataset = Inr d' \<and>
      train_inputs_flat d' = [[- 4, - 2, 1, 3], [1, 2, 3, 4]] \<and>
      test_inputs_flat d' = Some [[6, 8], [5, 6]] \<and>
      validation_inputs_flat d' = None)"
proof -
  have k: "(2 :: nat) = length (train_inputs_flat demo_dataset)" by (simp add: demo_dataset_fields)
  have c: "[True, False] = control_list (Some (Seq TupleK [Leaf True, Leaf False])) 2"
    by (simp add: control_list_def)
  have ne: "train_inputs_flat demo_dataset \<noteq> []" by (simp add: demo_dataset_fields)
  have lc: "(2 :: nat) \<le> length [True, False]" by simp
  have lt: "case test_inputs_flat demo_dataset of None \<Rightarrow> True | Some te \<Rightarrow> length te = 2"
    by (simp add: demo_dataset_fields)
  have lv: "case validation_inputs_flat demo_dataset of None \<Rightarrow> True | Some va \<Rightarrow> length va = 2"
    by (simp add: demo_dataset_fields)
  note t = normalize_applies_training_statistics[OF k c ne lc lt lv, of demo_np None,
      unfolded demo_dataset_fields option.case]
  from t show ?thesis
  proof (elim exE conjE)
    fix d1 d' te'
    assume n: "normalize demo_np None (Some (Seq TupleK [Leaf True, Leaf False])) demo_dataset = Inr d'"
    and l: "length (train_inputs_flat d') = 2"
    and tr: "\<forall>i<2. inputs_mean_flat d1 ! i = fst (get_stats demo_np ([[10, 20, 30, 40], [1, 2, 3, 4]] ! i) None) \<and>
            inputs_std_flat d1 ! i = fst (snd (get_stats demo_np ([[10, 20, 30, 40], [1, 2, 3, 4]] ! i) None)) \<and>
            train_inputs_flat d' ! i =
              (if [True, False] ! i
               then np_div demo_np (np_sub demo_np ([[10, 20, 30, 40], [1, 2, 3, 4]] ! i) (inputs_mean_flat d1 ! i))
                      (inputs_std_flat d1 ! i)
               else [[10, 20, 30, 40], [1, 2, 3, 4]] ! i)"
    and te1: "test_inputs_flat d' = Some te'" and tl: "length te' = 2"
    and tei: "\<forall>i<2. te' ! i =
                (if [True, False] ! i
                 then np_div demo_np (np_sub demo_np ([[50, 60], [5, 6]] ! i) (inputs_mean_flat d1 ! i)) (inputs_std_flat d1 ! i)
                 else [[50, 60], [5, 6]] ! i)"
    and va: "validation_inputs_flat d' = None"
  have i0: "(0 :: nat) < 2" and i1: "(1 :: nat) < 2" by simp_all
  have m0: "inputs_mean_flat d1 ! 0 = 25" and s0: "inputs_std_flat d1 ! 0 = 4"
    using tr[rule_format, OF i0] by (simp_all add: demo_stats)
  have t0: "train_inputs_flat d' ! 0 = [- 4, - 2, 1, 3]"
    using tr[rule_format, OF i0] by (simp add: demo_stats) (simp add: demo_np_def)
  have t1: "train_inputs_flat d' ! 1 = [1, 2, 3, 4]"
    using tr[rule_format, OF i1] by simp
  have trv: "train_inputs_flat d' = [[- 4, - 2, 1, 3], [1, 2, 3, 4]]"
    using l t0 t1 by (intro nth_equalityI) (auto simp: less_Suc_eq numeral_2_eq_2)
  have e0: "te' ! 0 = [6, 8]"
    using tei[rule_format, OF i0] by (simp add: m0 s0) (simp add: demo_np_def)
  have e1: "te' ! 1 = [5, 6]"
    using tei[rule_format, OF i1] by simp
  have tev: "te' = [[6, 8], [5, 6]]"
    using tl e0 e1 by (intro nth_equalityI) (auto simp: less_Suc_eq numeral_2_eq_2)
  show ?thesis using k c ne lc lt lv n trv te1 tev va by blast
  qed
qed

end
